theory Spec2Isabelle
  imports Main "HOL-Library.Multiset"
begin

text \<open>
  A model of the marketplace backend: the PostgreSQL schema with its constraints,
  triggers and the semantic search function; the configuration loader and the two
  store adapters; and \<^verbatim>\<open>main\<close>, from startup to the route table. The
  definitions come first, each next to the source text it renders; the properties
  follow, one section per subject. What the sources call and do not contain is a
  parameter (the embedding provider, the distance operator, the drivers, the
  middleware libraries); the two services the properties need and the sources lack,
  registration and the listing and keyword search of products, are written after the
  specification and marked so.
\<close>

section \<open>The relational schema (internal/database/postgres.go, the migration)\<close>

text \<open>
  Rows are records, one per table. A column declared \<^verbatim>\<open>NOT NULL\<close> (or
  \<^verbatim>\<open>PRIMARY KEY\<close>) has a plain type; every other column is nullable and has
  an \<open>option\<close> type, \<open>None\<close> being SQL's \<^verbatim>\<open>NULL\<close>. Each record
  keeps the key columns, the columns that a constraint, a trigger or the search
  function names, \<^verbatim>\<open>updated_at\<close> and, for \<^verbatim>\<open>users\<close>, every
  \<^verbatim>\<open>VARCHAR\<close> column; the remaining columns (free text, JSONB, arrays, counters
  with a default) are read by no statement modelled here. A row is given in full:
  column defaults (\<^verbatim>\<open>gen_random_uuid()\<close>, \<^verbatim>\<open>NOW()\<close>, \<^verbatim>\<open>true\<close>) are what
  a statement that leaves the column out would put there. Fields carry the alias
  the search function gives the table (\<^verbatim>\<open>p\<close>, \<^verbatim>\<open>pe\<close>) or a short table
  prefix.
\<close>

type_synonym uuid = nat
  \<comment> \<open>\<^verbatim>\<open>UUID\<close>: only equality of identifiers is ever used\<close>

type_synonym timestamp = int
  \<comment> \<open>\<^verbatim>\<open>TIMESTAMP WITH TIME ZONE\<close>, as microseconds since the epoch\<close>

type_synonym decimal = int
  \<comment> \<open>\<^verbatim>\<open>DECIMAL(10,2)\<close>, as a number of hundredths\<close>

record products_row =
  p_id :: uuid
  p_seller_id :: uuid
  p_category_id :: "uuid option"
  p_title :: string
  p_description :: "string option"
  p_price :: decimal
  p_stock_quantity :: "int option"
  p_is_active :: "bool option"
  p_updated_at :: "timestamp option"
  p_deleted_at :: "timestamp option"

record 'v product_embeddings_row =
  pe_product_id :: uuid
  pe_title_embedding :: "'v option"
  pe_description_embedding :: "'v option"
  pe_combined_embedding :: "'v option"
  pe_updated_at :: "timestamp option"

record users_row =
  u_id :: uuid
  u_email :: string
  u_username :: string
  u_password_hash :: string
  u_full_name :: "string option"
  u_avatar_url :: "string option"
  u_phone :: "string option"
  u_verification_level :: "string option"
  u_updated_at :: "timestamp option"
  u_is_active :: "bool option"

record reviews_row =
  rv_id :: uuid
  rv_product_id :: uuid
  rv_buyer_id :: uuid
  rv_seller_id :: uuid
  rv_rating :: "int option"
  rv_updated_at :: "timestamp option"

record orders_row =
  o_id :: uuid
  o_buyer_id :: uuid
  o_status :: "string option"
  o_payment_status :: "string option"
  o_total_amount :: decimal
  o_updated_at :: "timestamp option"

record order_items_row =
  oi_id :: uuid
  oi_order_id :: uuid
  oi_product_id :: uuid
  oi_quantity :: int
  oi_price :: decimal
  oi_total_price :: decimal

record cart_row =
  ct_id :: uuid
  ct_user_id :: uuid
  ct_product_id :: uuid
  ct_quantity :: int
  ct_updated_at :: "timestamp option"

record wishlist_row =
  wl_id :: uuid
  wl_user_id :: uuid
  wl_product_id :: uuid

record user_preferences_row =
  up_user_id :: uuid
  up_theme :: "string option"
  up_language :: "string option"
  up_updated_at :: "timestamp option"

text \<open>
  The tables that hold a reference to \<^verbatim>\<open>products\<close>, with \<^verbatim>\<open>products\<close> and
  \<^verbatim>\<open>users\<close>; a table is the list of its rows.
\<close>

record 'v database =
  users :: "users_row list"
  products :: "products_row list"
  product_embeddings :: "'v product_embeddings_row list"
  reviews :: "reviews_row list"
  order_items :: "order_items_row list"
  cart :: "cart_row list"
  wishlist :: "wishlist_row list"

section \<open>Semantic search (the SQL function \<^verbatim>\<open>search_products_semantic\<close>)\<close>

text \<open>
  The parameter defaults of the SQL function (no category filter, limit 10, offset
  0) are what a call that leaves the argument out passes; here every argument is
  given. The function calls two things the repository does not define, both
  parameters here.
  \<^item> \<open>openai_embed_text\<close>, the SQL function from text to vector, a call to an
    external provider: it returns a vector or \<^verbatim>\<open>NULL\<close>, or raises (the provider
    does not answer, the function is not installed).
  \<^item> \<open>dist\<close>, pgvector's operator \<^verbatim>\<open><=>\<close> on two vectors: it returns a value of
    a linearly ordered type (PostgreSQL orders \<^verbatim>\<open>FLOAT\<close> totally, \<^verbatim>\<open>NaN\<close>
    last), or raises (the two vectors differ in dimension). The operator is strict:
    with a \<^verbatim>\<open>NULL\<close> operand it is not called and the result is \<^verbatim>\<open>NULL\<close>.

  An exception aborts the whole call.
\<close>

datatype sql_error =
    NegativeLimit
  | NegativeOffset
  | UniqueViolation string
  | ForeignKeyViolation string
  | StringDataRightTruncation string
  | RaisedException string

definition distance_op ::
  "('v \<Rightarrow> 'v \<Rightarrow> sql_error + 'd) \<Rightarrow> 'v option \<Rightarrow> 'v option \<Rightarrow> sql_error + 'd option" where
  "distance_op dist a b =
     (case a of None \<Rightarrow> Inr None
      | Some x \<Rightarrow>
          (case b of None \<Rightarrow> Inr None
           | Some y \<Rightarrow> (case dist x y of Inl e \<Rightarrow> Inl e | Inr d \<Rightarrow> Inr (Some d))))"

text \<open>The six columns of \<^verbatim>\<open>RETURNS TABLE\<close>.\<close>

record 'd search_row =
  r_product_id :: uuid
  r_title :: string
  r_description :: "string option"
  r_price :: decimal
  r_seller_id :: uuid
  r_similarity :: "'d option"

text \<open>
  \<^verbatim>\<open>FROM products p JOIN product_embeddings pe ON p.id = pe.product_id\<close>: the
  inner join, every pair of rows that satisfies the \<^verbatim>\<open>ON\<close> condition.
\<close>

definition join_embeddings ::
  "products_row list \<Rightarrow> 'v product_embeddings_row list \<Rightarrow>
   (products_row \<times> 'v product_embeddings_row) list" where
  "join_embeddings ps pes =
     concat (map (\<lambda>p. map (\<lambda>pe. (p, pe)) (filter (\<lambda>pe. p_id p = pe_product_id pe) pes)) ps)"

text \<open>
  \<^verbatim>\<open>WHERE p.is_active = true AND (category_filter IS NULL OR p.category_id = category_filter)\<close>.
  A comparison with \<^verbatim>\<open>NULL\<close> is not true, so a row whose \<^verbatim>\<open>is_active\<close> or
  (under a filter) \<^verbatim>\<open>category_id\<close> is \<^verbatim>\<open>NULL\<close> is dropped.
\<close>

definition search_where :: "uuid option \<Rightarrow> products_row \<Rightarrow> bool" where
  "search_where category_filter p =
     (p_is_active p = Some True \<and>
      (category_filter = None \<or> p_category_id p = category_filter))"

text \<open>The \<^verbatim>\<open>FROM\<close> and \<^verbatim>\<open>WHERE\<close> clauses together: the rows that are ranked.\<close>

definition from_where ::
  "uuid option \<Rightarrow> products_row list \<Rightarrow> 'v product_embeddings_row list \<Rightarrow>
   (products_row \<times> 'v product_embeddings_row) list" where
  "from_where category_filter ps pes =
     filter (\<lambda>ppe. search_where category_filter (fst ppe)) (join_embeddings ps pes)"

text \<open>
  The distance of every row that passed the \<^verbatim>\<open>WHERE\<close> clause, computed once per
  row (the select list and the \<^verbatim>\<open>ORDER BY\<close> clause hold the same expression). The
  first exception ends the computation.
\<close>

fun with_distances ::
  "('v \<Rightarrow> 'v \<Rightarrow> sql_error + 'd) \<Rightarrow> 'v option \<Rightarrow>
   (products_row \<times> 'v product_embeddings_row) list \<Rightarrow>
   sql_error + ('d option \<times> products_row \<times> 'v product_embeddings_row) list" where
  "with_distances dist q [] = Inr []"
| "with_distances dist q (ppe # rows) =
     (case distance_op dist (pe_combined_embedding (snd ppe)) q of
        Inl e \<Rightarrow> Inl e
      | Inr d \<Rightarrow>
          (case with_distances dist q rows of
             Inl e \<Rightarrow> Inl e
           | Inr keyed \<Rightarrow> Inr ((d, ppe) # keyed)))"

text \<open>
  \<^verbatim>\<open>ORDER BY\<close> ascending, which in PostgreSQL puts \<^verbatim>\<open>NULL\<close> keys last. SQL
  leaves open in which order rows with equal keys come out, and in which order the
  join delivers its rows to the sort; two calls, or a paginated and an unpaginated
  one, need not agree on it. That choice is the parameter \<open>executor\<close>, a
  reordering of the joined rows; the sort itself is then a stable insertion sort, so
  that every order of the ties is the result under some \<open>executor\<close>.
\<close>

fun nulls_last_le :: "'d::linorder option \<Rightarrow> 'd option \<Rightarrow> bool" where
  "nulls_last_le _ None = True"
| "nulls_last_le None (Some b) = False"
| "nulls_last_le (Some a) (Some b) = (a \<le> b)"

fun insert_by :: "('a \<Rightarrow> 'd::linorder option) \<Rightarrow> 'a \<Rightarrow> 'a list \<Rightarrow> 'a list" where
  "insert_by k x [] = [x]"
| "insert_by k x (y # ys) =
     (if nulls_last_le (k x) (k y) then x # y # ys else y # insert_by k x ys)"

fun order_by :: "('a \<Rightarrow> 'd::linorder option) \<Rightarrow> 'a list \<Rightarrow> 'a list" where
  "order_by k [] = []"
| "order_by k (x # xs) = insert_by k x (order_by k xs)"

text \<open>
  \<^verbatim>\<open>LIMIT\<close> and \<^verbatim>\<open>OFFSET\<close>: a \<^verbatim>\<open>NULL\<close> limit is no limit, a
  \<^verbatim>\<open>NULL\<close> offset is no offset, and a negative one aborts the statement (the
  offset is looked at first). The offset is applied before the limit. The two
  parameters are \<^verbatim>\<open>INTEGER\<close>s; they enter no arithmetic, so they are integers here.
\<close>

definition check_limit_offset :: "int option \<Rightarrow> int option \<Rightarrow> sql_error option" where
  "check_limit_offset limit_results offset_results =
     (if (case offset_results of Some off \<Rightarrow> off < 0 | None \<Rightarrow> False) then Some NegativeOffset
      else if (case limit_results of Some l \<Rightarrow> l < 0 | None \<Rightarrow> False) then Some NegativeLimit
      else None)"

definition limit_offset :: "int option \<Rightarrow> int option \<Rightarrow> 'a list \<Rightarrow> 'a list" where
  "limit_offset limit_results offset_results rows =
     (case limit_results of None \<Rightarrow> (\<lambda>xs. xs) | Some l \<Rightarrow> take (nat l))
       (case offset_results of None \<Rightarrow> rows | Some off \<Rightarrow> drop (nat off) rows)"

definition select_row ::
  "'d option \<times> products_row \<times> 'v product_embeddings_row \<Rightarrow> 'd search_row" where
  "select_row keyed =
     \<lparr> r_product_id = p_id (fst (snd keyed)),
       r_title = p_title (fst (snd keyed)),
       r_description = p_description (fst (snd keyed)),
       r_price = p_price (fst (snd keyed)),
       r_seller_id = p_seller_id (fst (snd keyed)),
       r_similarity = fst keyed \<rparr>"

text \<open>
  The call. Limit and offset are checked first. With a limit of 0 the executor asks
  for no row, and with no row passing the \<^verbatim>\<open>WHERE\<close> clause there is none to
  rank: in both cases the result is empty and neither the provider nor the distance
  operator is called (the sub-select that embeds the query text is evaluated when
  the first row needs it). Otherwise the query text is embedded, every row that
  passed gets its distance, and the rows are sorted, cut to the page and projected.
\<close>

definition search_products_semantic ::
  "(string \<Rightarrow> sql_error + 'v option) \<Rightarrow> ('v \<Rightarrow> 'v \<Rightarrow> sql_error + 'd::linorder) \<Rightarrow>
   ((products_row \<times> 'v product_embeddings_row) list \<Rightarrow>
      (products_row \<times> 'v product_embeddings_row) list) \<Rightarrow>
   products_row list \<Rightarrow> 'v product_embeddings_row list \<Rightarrow>
   string \<Rightarrow> uuid option \<Rightarrow> int option \<Rightarrow> int option \<Rightarrow> sql_error + 'd search_row list" where
  "search_products_semantic openai_embed_text dist executor ps pes
     query_text category_filter limit_results offset_results =
     (case check_limit_offset limit_results offset_results of
        Some e \<Rightarrow> Inl e
      | None \<Rightarrow>
          (let rows = executor (from_where category_filter ps pes)
           in if limit_results = Some 0 \<or> rows = [] then Inr []
              else
                (case openai_embed_text query_text of
                   Inl e \<Rightarrow> Inl e
                 | Inr q \<Rightarrow>
                     (case with_distances dist q rows of
                        Inl e \<Rightarrow> Inl e
                      | Inr keyed \<Rightarrow>
                          Inr (map select_row
                                 (limit_offset limit_results offset_results
                                    (order_by fst keyed)))))))"

subsection \<open>Soft deletion, listing and keyword search\<close>

text \<open>
  The soft-delete marker of a product is its flag \<^verbatim>\<open>is_active\<close>, the one column
  of the product's state that the search function tests: a product is soft-deleted
  when the flag is not true (false, or \<^verbatim>\<open>NULL\<close>, which no comparison makes
  true). The table also has a timestamp \<^verbatim>\<open>deleted_at\<close>; nothing in the
  sources reads or writes it.
\<close>

definition soft_deleted :: "products_row \<Rightarrow> bool" where
  "soft_deleted p = (p_is_active p \<noteq> Some True)"

text \<open>
  Modelled from the spec: the product service's listing and keyword search, which
  \<^verbatim>\<open>main\<close> only registers handlers for
  (\<^verbatim>\<open>productHandler.ListProducts\<close>, \<^verbatim>\<open>searchHandler.Search\<close>), are not
  among the sources. The spec gives
  \<^verbatim>\<open>list(filters, pagination) -> ordered sequence of Product\<close> and
  \<^verbatim>\<open>keywordSearch(query, filters) -> ranked sequence\<close>, with the invariant
  that soft-deleted products are excluded from listings and search. What a filter
  accepts, the order of a listing, what matches a query and the score of a match are
  parameters; order and pagination are those of the SQL above.
\<close>

definition list_products ::
  "(products_row \<Rightarrow> bool) \<Rightarrow> (products_row \<Rightarrow> 'k::linorder option) \<Rightarrow>
   int option \<Rightarrow> int option \<Rightarrow> products_row list \<Rightarrow> products_row list" where
  "list_products filters order_key limit_results offset_results ps =
     limit_offset limit_results offset_results
       (order_by order_key (filter (\<lambda>p. \<not> soft_deleted p \<and> filters p) ps))"

text \<open>
  Modelled from the spec: \<^verbatim>\<open>keywordSearch(query, filters)\<close>, missing from the
  sources like the listing; the products that are not soft-deleted, pass the filters
  and match the query, ranked by their score.
\<close>

definition keywordSearch ::
  "(string \<Rightarrow> products_row \<Rightarrow> bool) \<Rightarrow> (string \<Rightarrow> products_row \<Rightarrow> 'k::linorder option) \<Rightarrow>
   string \<Rightarrow> (products_row \<Rightarrow> bool) \<Rightarrow> products_row list \<Rightarrow> products_row list" where
  "keywordSearch matches score query filters ps =
     order_by (score query)
       (filter (\<lambda>p. \<not> soft_deleted p \<and> filters p \<and> matches query p) ps)"

section \<open>Statements against the schema\<close>

text \<open>
  A statement either fails, leaving the table as it was, or yields the new table.
  \<open>run_statement\<close> is that rule: the error, if any, and the state afterwards.
\<close>

definition run_statement :: "('s \<Rightarrow> sql_error + 's) \<Rightarrow> 's \<Rightarrow> sql_error option \<times> 's" where
  "run_statement stmt s = (case stmt s of Inl e \<Rightarrow> (Some e, s) | Inr s' \<Rightarrow> (None, s'))"

subsection \<open>\<^verbatim>\<open>INSERT INTO users\<close>\<close>

text \<open>
  Strings are byte sequences in UTF-8, as Go has them and as the connection sends
  them; \<^verbatim>\<open>VARCHAR(n)\<close> counts characters. A character starts at every byte
  that is not a continuation byte (\<^verbatim>\<open>10xxxxxx\<close>).
\<close>

definition utf8_continuation :: "char \<Rightarrow> bool" where
  "utf8_continuation c = (digit7 c \<and> \<not> digit6 c)"

definition utf8_length :: "string \<Rightarrow> nat" where
  "utf8_length s = length (filter (\<lambda>c. \<not> utf8_continuation c) s)"

text \<open>The first \<open>n\<close> characters of a string, and what follows them.\<close>

fun utf8_take :: "nat \<Rightarrow> string \<Rightarrow> string" where
  "utf8_take n [] = []"
| "utf8_take n (c # cs) =
     (if utf8_continuation c then c # utf8_take n cs
      else (case n of 0 \<Rightarrow> [] | Suc m \<Rightarrow> c # utf8_take m cs))"

fun utf8_drop :: "nat \<Rightarrow> string \<Rightarrow> string" where
  "utf8_drop n [] = []"
| "utf8_drop n (c # cs) =
     (if utf8_continuation c then utf8_drop n cs
      else (case n of 0 \<Rightarrow> c # cs | Suc m \<Rightarrow> utf8_drop m cs))"

text \<open>
  Storing into \<^verbatim>\<open>VARCHAR(n)\<close>: a string of more than \<open>n\<close> characters is an
  error unless the excess is all spaces, in which case it is cut to \<open>n\<close>
  characters.
\<close>

definition varchar :: "nat \<Rightarrow> string \<Rightarrow> sql_error + string" where
  "varchar n s =
     (if utf8_length s \<le> n then Inr s
      else if list_all (\<lambda>c. c = CHR '' '') (utf8_drop n s) then Inr (utf8_take n s)
      else Inl (StringDataRightTruncation ''value too long for type character varying''))"

definition varchar_null :: "nat \<Rightarrow> string option \<Rightarrow> sql_error + string option" where
  "varchar_null n v =
     (case v of None \<Rightarrow> Inr None
      | Some s \<Rightarrow> (case varchar n s of Inl e \<Rightarrow> Inl e | Inr s' \<Rightarrow> Inr (Some s')))"

text \<open>The row as the column types of \<^verbatim>\<open>users\<close> store it.\<close>

definition users_coerce :: "users_row \<Rightarrow> sql_error + users_row" where
  "users_coerce new =
     (case varchar 255 (u_email new) of Inl e \<Rightarrow> Inl e | Inr email \<Rightarrow>
      case varchar 100 (u_username new) of Inl e \<Rightarrow> Inl e | Inr username \<Rightarrow>
      case varchar 255 (u_password_hash new) of Inl e \<Rightarrow> Inl e | Inr password_hash \<Rightarrow>
      case varchar_null 255 (u_full_name new) of Inl e \<Rightarrow> Inl e | Inr full_name \<Rightarrow>
      case varchar_null 500 (u_avatar_url new) of Inl e \<Rightarrow> Inl e | Inr avatar_url \<Rightarrow>
      case varchar_null 20 (u_phone new) of Inl e \<Rightarrow> Inl e | Inr phone \<Rightarrow>
      case varchar_null 20 (u_verification_level new) of Inl e \<Rightarrow> Inl e | Inr verification_level \<Rightarrow>
        Inr (new\<lparr> u_email := email, u_username := username, u_password_hash := password_hash,
                  u_full_name := full_name, u_avatar_url := avatar_url, u_phone := phone,
                  u_verification_level := verification_level \<rparr>))"

text \<open>
  \<^verbatim>\<open>id UUID PRIMARY KEY\<close>, \<^verbatim>\<open>email VARCHAR(255) UNIQUE NOT NULL\<close>,
  \<^verbatim>\<open>username VARCHAR(100) UNIQUE NOT NULL\<close>: three unique indexes, each comparing
  the stored strings character by character (the column type is \<^verbatim>\<open>VARCHAR\<close>; the
  schema has no case-folding index or type). The constraint names are the ones
  PostgreSQL derives.
\<close>

definition insert_users :: "users_row \<Rightarrow> users_row list \<Rightarrow> sql_error + users_row list" where
  "insert_users new rows =
     (case users_coerce new of
        Inl e \<Rightarrow> Inl e
      | Inr row \<Rightarrow>
          (if u_id row \<in> set (map u_id rows) then Inl (UniqueViolation ''users_pkey'')
           else if u_email row \<in> set (map u_email rows) then Inl (UniqueViolation ''users_email_key'')
           else if u_username row \<in> set (map u_username rows)
             then Inl (UniqueViolation ''users_username_key'')
           else Inr (rows @ [row])))"

text \<open>The invariant the three indexes maintain.\<close>

definition users_unique :: "users_row list \<Rightarrow> bool" where
  "users_unique rows =
     (distinct (map u_id rows) \<and> distinct (map u_email rows) \<and> distinct (map u_username rows))"

subsection \<open>Registration\<close>

text \<open>
  Modelled from the spec: the user service's \<^verbatim>\<open>register\<close>, which \<^verbatim>\<open>main\<close>
  only registers a handler for (\<^verbatim>\<open>userHandler.Register\<close> at
  \<^verbatim>\<open>POST /api/v1/auth/register\<close>), is not among the sources. What the spec says
  of it is the contract
  \<^verbatim>\<open>register(email, username, password) -> User | error{DuplicateEmail, DuplicateUsername, WeakPassword}\<close>,
  the invariants that email and username are case-insensitively unique and that the
  password is never stored in plaintext, and the error taxonomy, in which a
  uniqueness violation is a \<^verbatim>\<open>Conflict\<close> and bad input a \<^verbatim>\<open>Validation\<close>
  error. This subsection is that text as definitions.
\<close>

text \<open>
  Modelled from the spec: equality of two strings up to letter case, the comparison
  of the uniqueness invariant (the ASCII letters are lower-cased), and the invariant
  itself.
\<close>

definition lower_ascii :: "char \<Rightarrow> char" where
  "lower_ascii c =
     (case map_of (zip ''ABCDEFGHIJKLMNOPQRSTUVWXYZ'' ''abcdefghijklmnopqrstuvwxyz'') c of
        Some l \<Rightarrow> l
      | None \<Rightarrow> c)"

definition spec_equal_ignoring_case :: "string \<Rightarrow> string \<Rightarrow> bool" where
  "spec_equal_ignoring_case a b = (map lower_ascii a = map lower_ascii b)"

definition users_unique_ignoring_case :: "users_row list \<Rightarrow> bool" where
  "users_unique_ignoring_case rows =
     (distinct (map (\<lambda>u. map lower_ascii (u_email u)) rows) \<and>
      distinct (map (\<lambda>u. map lower_ascii (u_username u)) rows))"

text \<open>
  Modelled from the spec: the error taxonomy, the errors of the contract (with one
  more for an error of the store, which the contract does not list) and the kind of
  each.
\<close>

datatype error_kind =
    Validation
  | Conflict
  | NotFound
  | Forbidden
  | Unauthenticated
  | RateLimited
  | UpstreamUnavailable
  | Internal

datatype register_error =
    DuplicateEmail
  | DuplicateUsername
  | WeakPassword
  | StoreError sql_error

fun kind_of :: "register_error \<Rightarrow> error_kind" where
  "kind_of DuplicateEmail = Conflict"
| "kind_of DuplicateUsername = Conflict"
| "kind_of WeakPassword = Validation"
| "kind_of (StoreError e) = Internal"

text \<open>
  Modelled from the spec: \<^verbatim>\<open>register\<close> itself. The three checks are made in the
  order in which the contract lists their errors. What makes a password weak, the
  password hash, the id of the new row and the time are parameters. The row is
  stored by the \<^verbatim>\<open>INSERT\<close> above, with the column defaults of the table for
  what the contract does not give; an error of the store is an error of the call.
  The result is the outcome and the table afterwards.
\<close>

definition register ::
  "(string \<Rightarrow> bool) \<Rightarrow> (string \<Rightarrow> string) \<Rightarrow> uuid \<Rightarrow> timestamp \<Rightarrow>
   string \<Rightarrow> string \<Rightarrow> string \<Rightarrow> users_row list \<Rightarrow>
   (register_error + users_row) \<times> users_row list" where
  "register weak_password hash_password new_id now email username password rows =
     (if list_ex (\<lambda>u. spec_equal_ignoring_case (u_email u) email) rows
        then (Inl DuplicateEmail, rows)
      else if list_ex (\<lambda>u. spec_equal_ignoring_case (u_username u) username) rows
        then (Inl DuplicateUsername, rows)
      else if weak_password password then (Inl WeakPassword, rows)
      else
        (case insert_users
                \<lparr> u_id = new_id, u_email = email, u_username = username,
                  u_password_hash = hash_password password, u_full_name = None,
                  u_avatar_url = None, u_phone = None, u_verification_level = Some ''basic'',
                  u_updated_at = Some now, u_is_active = Some True \<rparr> rows of
           Inl e \<Rightarrow> (Inl (StoreError e), rows)
         | Inr rows' \<Rightarrow> (Inr (last rows'), rows')))"

subsection \<open>\<^verbatim>\<open>DELETE FROM products WHERE id = ...\<close>\<close>

text \<open>
  Five tables reference \<^verbatim>\<open>products(id)\<close>. Three do so with
  \<^verbatim>\<open>ON DELETE CASCADE\<close> (\<^verbatim>\<open>product_embeddings\<close>, \<^verbatim>\<open>reviews\<close>,
  \<^verbatim>\<open>wishlist\<close>): their rows go with the product. Two have no action
  (\<^verbatim>\<open>order_items\<close>, \<^verbatim>\<open>cart\<close>): a row of theirs that still points at the
  product aborts the statement. No table references the three cascading ones, so the
  cascade stops there.
\<close>

definition delete_products :: "uuid \<Rightarrow> 'v database \<Rightarrow> sql_error + 'v database" where
  "delete_products pid db =
     (if \<not> list_ex (\<lambda>p. p_id p = pid) (products db) then Inr db
      else if list_ex (\<lambda>oi. oi_product_id oi = pid) (order_items db)
        then Inl (ForeignKeyViolation ''order_items_product_id_fkey'')
      else if list_ex (\<lambda>c. ct_product_id c = pid) (cart db)
        then Inl (ForeignKeyViolation ''cart_product_id_fkey'')
      else Inr (db\<lparr> products := filter (\<lambda>p. p_id p \<noteq> pid) (products db),
                     product_embeddings :=
                       filter (\<lambda>pe. pe_product_id pe \<noteq> pid) (product_embeddings db),
                     reviews := filter (\<lambda>r. rv_product_id r \<noteq> pid) (reviews db),
                     wishlist := filter (\<lambda>w. wl_product_id w \<noteq> pid) (wishlist db) \<rparr>))"

subsection \<open>\<^verbatim>\<open>UPDATE\<close> and the \<^verbatim>\<open>updated_at\<close> triggers\<close>

text \<open>
  \<^verbatim>\<open>update_updated_at_column()\<close>: \<^verbatim>\<open>NEW.updated_at = NOW(); RETURN NEW;\<close>. The
  PL/pgSQL function works on the row of whichever table fires it; here the column
  is passed as its setter. \<open>now\<close> is the value \<^verbatim>\<open>NOW()\<close> returns, in PostgreSQL
  the start time of the transaction the statement runs in.
\<close>

definition update_updated_at_column ::
  "(timestamp option \<Rightarrow> 'r \<Rightarrow> 'r) \<Rightarrow> timestamp \<Rightarrow> 'r \<Rightarrow> 'r \<Rightarrow> 'r" where
  "update_updated_at_column set_updated_at now old new = set_updated_at (Some now) new"

text \<open>The six \<^verbatim>\<open>CREATE TRIGGER ... BEFORE UPDATE ON ... FOR EACH ROW\<close> statements.\<close>

definition update_users_updated_at :: "timestamp \<Rightarrow> users_row \<Rightarrow> users_row \<Rightarrow> users_row" where
  "update_users_updated_at = update_updated_at_column (\<lambda>t r. r\<lparr>u_updated_at := t\<rparr>)"

definition update_products_updated_at ::
  "timestamp \<Rightarrow> products_row \<Rightarrow> products_row \<Rightarrow> products_row" where
  "update_products_updated_at = update_updated_at_column (\<lambda>t r. r\<lparr>p_updated_at := t\<rparr>)"

definition update_reviews_updated_at ::
  "timestamp \<Rightarrow> reviews_row \<Rightarrow> reviews_row \<Rightarrow> reviews_row" where
  "update_reviews_updated_at = update_updated_at_column (\<lambda>t r. r\<lparr>rv_updated_at := t\<rparr>)"

definition update_orders_updated_at ::
  "timestamp \<Rightarrow> orders_row \<Rightarrow> orders_row \<Rightarrow> orders_row" where
  "update_orders_updated_at = update_updated_at_column (\<lambda>t r. r\<lparr>o_updated_at := t\<rparr>)"

definition update_cart_updated_at :: "timestamp \<Rightarrow> cart_row \<Rightarrow> cart_row \<Rightarrow> cart_row" where
  "update_cart_updated_at = update_updated_at_column (\<lambda>t r. r\<lparr>ct_updated_at := t\<rparr>)"

definition update_user_preferences_updated_at ::
  "timestamp \<Rightarrow> user_preferences_row \<Rightarrow> user_preferences_row \<Rightarrow> user_preferences_row" where
  "update_user_preferences_updated_at =
     update_updated_at_column (\<lambda>t r. r\<lparr>up_updated_at := t\<rparr>)"

text \<open>
  \<^verbatim>\<open>UPDATE t SET ... WHERE ...\<close>: every row the \<^verbatim>\<open>WHERE\<close> clause selects is
  replaced by what the \<^verbatim>\<open>SET\<close> clause makes of it, passed through the table's
  \<^verbatim>\<open>BEFORE UPDATE\<close> row triggers in turn (each gets the old and the new row);
  the other rows stay. The table's constraints are then checked on the result and
  can only reject the statement; they are a parameter, \<open>constraints\<close>.
\<close>

definition update_statement ::
  "('r \<Rightarrow> 'r \<Rightarrow> 'r) list \<Rightarrow> ('r list \<Rightarrow> sql_error option) \<Rightarrow>
   ('r \<Rightarrow> bool) \<Rightarrow> ('r \<Rightarrow> 'r) \<Rightarrow> 'r list \<Rightarrow> sql_error + 'r list" where
  "update_statement before_update constraints where_clause set_clause rows =
     (let rows' = map (\<lambda>old. if where_clause old
                               then fold (\<lambda>trigger new. trigger old new) before_update (set_clause old)
                               else old) rows
      in case constraints rows' of Some e \<Rightarrow> Inl e | None \<Rightarrow> Inr rows')"

definition update_users ::
  "timestamp \<Rightarrow> (users_row list \<Rightarrow> sql_error option) \<Rightarrow> (users_row \<Rightarrow> bool) \<Rightarrow>
   (users_row \<Rightarrow> users_row) \<Rightarrow> users_row list \<Rightarrow> sql_error + users_row list" where
  "update_users now = update_statement [update_users_updated_at now]"

definition update_products ::
  "timestamp \<Rightarrow> (products_row list \<Rightarrow> sql_error option) \<Rightarrow> (products_row \<Rightarrow> bool) \<Rightarrow>
   (products_row \<Rightarrow> products_row) \<Rightarrow> products_row list \<Rightarrow> sql_error + products_row list" where
  "update_products now = update_statement [update_products_updated_at now]"

definition update_reviews ::
  "timestamp \<Rightarrow> (reviews_row list \<Rightarrow> sql_error option) \<Rightarrow> (reviews_row \<Rightarrow> bool) \<Rightarrow>
   (reviews_row \<Rightarrow> reviews_row) \<Rightarrow> reviews_row list \<Rightarrow> sql_error + reviews_row list" where
  "update_reviews now = update_statement [update_reviews_updated_at now]"

definition update_orders ::
  "timestamp \<Rightarrow> (orders_row list \<Rightarrow> sql_error option) \<Rightarrow> (orders_row \<Rightarrow> bool) \<Rightarrow>
   (orders_row \<Rightarrow> orders_row) \<Rightarrow> orders_row list \<Rightarrow> sql_error + orders_row list" where
  "update_orders now = update_statement [update_orders_updated_at now]"

definition update_cart ::
  "timestamp \<Rightarrow> (cart_row list \<Rightarrow> sql_error option) \<Rightarrow> (cart_row \<Rightarrow> bool) \<Rightarrow>
   (cart_row \<Rightarrow> cart_row) \<Rightarrow> cart_row list \<Rightarrow> sql_error + cart_row list" where
  "update_cart now = update_statement [update_cart_updated_at now]"

definition update_user_preferences ::
  "timestamp \<Rightarrow> (user_preferences_row list \<Rightarrow> sql_error option) \<Rightarrow>
   (user_preferences_row \<Rightarrow> bool) \<Rightarrow> (user_preferences_row \<Rightarrow> user_preferences_row) \<Rightarrow>
   user_preferences_row list \<Rightarrow> sql_error + user_preferences_row list" where
  "update_user_preferences now = update_statement [update_user_preferences_updated_at now]"

text \<open>
  \<^verbatim>\<open>product_embeddings\<close> has an \<^verbatim>\<open>updated_at\<close> column and no trigger: its
  \<^verbatim>\<open>UPDATE\<close> writes what the \<^verbatim>\<open>SET\<close> clause says and nothing more.
\<close>

definition update_product_embeddings ::
  "('v product_embeddings_row list \<Rightarrow> sql_error option) \<Rightarrow> ('v product_embeddings_row \<Rightarrow> bool) \<Rightarrow>
   ('v product_embeddings_row \<Rightarrow> 'v product_embeddings_row) \<Rightarrow>
   'v product_embeddings_row list \<Rightarrow> sql_error + 'v product_embeddings_row list" where
  "update_product_embeddings = update_statement []"

text \<open>
  A transaction: its statements run in turn, each on the table the one before left,
  and every one of them gets the same \<^verbatim>\<open>NOW()\<close>. An error ends it.
\<close>

fun in_transaction ::
  "timestamp \<Rightarrow> (timestamp \<Rightarrow> 's \<Rightarrow> sql_error + 's) list \<Rightarrow> 's \<Rightarrow> sql_error + 's" where
  "in_transaction now [] s = Inr s"
| "in_transaction now (stmt # stmts) s =
     (case stmt now s of Inl e \<Rightarrow> Inl e | Inr s' \<Rightarrow> in_transaction now stmts s')"

section \<open>Configuration (internal/config)\<close>

text \<open>
  Go's \<^verbatim>\<open>int\<close> fields are integers here: none of them enters any arithmetic. The
  \<^verbatim>\<open>float32\<close> field \<^verbatim>\<open>OpenAI.Temperature\<close> is carried by the loader and read
  nowhere; it is left out.
\<close>

record ServerConfig =
  server_port :: int
  server_host :: string

record DatabaseConfig =
  db_host :: string
  db_port :: int
  db_user :: string
  db_password :: string
  db_name :: string
  db_sslmode :: string

record RedisConfig =
  redis_host :: string
  redis_port :: int
  redis_password :: string
  redis_db :: int

record JWTConfig =
  jwt_secret :: string
  jwt_expiration :: int

record OpenAIConfig =
  openai_api_key :: string
  openai_model :: string
  openai_max_tokens :: int

record Config =
  cfg_environment :: string
  cfg_server :: ServerConfig
  cfg_database :: DatabaseConfig
  cfg_redis :: RedisConfig
  cfg_jwt :: JWTConfig
  cfg_openai :: OpenAIConfig

text \<open>
  What the process finds outside itself, each a parameter: the environment (an unset
  variable reads as the empty string, as \<^verbatim>\<open>os.Getenv\<close> gives it, after
  \<^verbatim>\<open>godotenv.Load\<close> has merged a \<^verbatim>\<open>.env\<close> file when there is one), the file
  system, the YAML decoder, \<^verbatim>\<open>fmt.Sscanf\<close> with the verb \<^verbatim>\<open>%d\<close>, the SQL
  driver (\<^verbatim>\<open>sql.Open\<close> and \<^verbatim>\<open>Ping\<close>) and the Redis server's answer to
  \<^verbatim>\<open>PING\<close>. An error is its message.
\<close>

record redis_options =
  opt_addr :: string
  opt_password :: string
  opt_db :: int

record 'c system =
  sys_getenv :: "string \<Rightarrow> string"
  sys_read_file :: "string \<Rightarrow> string + string"
  sys_yaml_unmarshal :: "string \<Rightarrow> string + Config"
  sys_sscanf_d :: "string \<Rightarrow> int option"
  sys_sql_open :: "string \<Rightarrow> string + 'c"
  sys_db_ping :: "'c \<Rightarrow> string option"
  sys_redis_ping :: "redis_options \<Rightarrow> string option"

text \<open>\<^verbatim>\<open>if v := os.Getenv(key); v != "" { field = v }\<close>\<close>

definition env_override :: "'c system \<Rightarrow> string \<Rightarrow> string \<Rightarrow> string" where
  "env_override sys key current = (if sys_getenv sys key \<noteq> [] then sys_getenv sys key else current)"

text \<open>\<^verbatim>\<open>if v := os.Getenv(key); v != "" { fmt.Sscanf(v, "%d", &field) }\<close>, its error dropped.\<close>

definition env_override_int :: "'c system \<Rightarrow> string \<Rightarrow> int \<Rightarrow> int" where
  "env_override_int sys key current =
     (if sys_getenv sys key \<noteq> []
      then (case sys_sscanf_d sys (sys_getenv sys key) of Some n \<Rightarrow> n | None \<Rightarrow> current)
      else current)"

definition Load :: "'c system \<Rightarrow> string \<Rightarrow> string + Config" where
  "Load sys filename =
     (case sys_read_file sys filename of
        Inl err \<Rightarrow> Inl (''failed to read config file: '' @ err)
      | Inr data \<Rightarrow>
          (case sys_yaml_unmarshal sys data of
             Inl err \<Rightarrow> Inl (''failed to unmarshal config: '' @ err)
           | Inr cfg \<Rightarrow>
               Inr (cfg\<lparr>
                 cfg_environment := env_override sys ''ENVIRONMENT'' (cfg_environment cfg),
                 cfg_server := (cfg_server cfg)\<lparr>
                   server_port := env_override_int sys ''SERVER_PORT'' (server_port (cfg_server cfg)) \<rparr>,
                 cfg_database := (cfg_database cfg)\<lparr>
                   db_host := env_override sys ''DB_HOST'' (db_host (cfg_database cfg)),
                   db_user := env_override sys ''DB_USER'' (db_user (cfg_database cfg)),
                   db_password := env_override sys ''DB_PASSWORD'' (db_password (cfg_database cfg)),
                   db_name := env_override sys ''DB_NAME'' (db_name (cfg_database cfg)) \<rparr>,
                 cfg_redis := (cfg_redis cfg)\<lparr>
                   redis_host := env_override sys ''REDIS_HOST'' (redis_host (cfg_redis cfg)) \<rparr>,
                 cfg_jwt := (cfg_jwt cfg)\<lparr>
                   jwt_secret := env_override sys ''JWT_SECRET'' (jwt_secret (cfg_jwt cfg)) \<rparr>,
                 cfg_openai := (cfg_openai cfg)\<lparr>
                   openai_api_key := env_override sys ''OPENAI_API_KEY'' (openai_api_key (cfg_openai cfg)) \<rparr>
               \<rparr>)))"

definition DefaultConfig :: Config where
  "DefaultConfig =
     \<lparr> cfg_environment = ''development'',
       cfg_server = \<lparr> server_port = 8080, server_host = ''0.0.0.0'' \<rparr>,
       cfg_database = \<lparr> db_host = ''localhost'', db_port = 5432, db_user = ''greens_user'',
                        db_password = ''greens_password'', db_name = ''greens_marketplace'',
                        db_sslmode = ''disable'' \<rparr>,
       cfg_redis = \<lparr> redis_host = ''localhost'', redis_port = 6379, redis_password = [],
                     redis_db = 0 \<rparr>,
       cfg_jwt = \<lparr> jwt_secret = ''your-super-secret-jwt-key-change-this-in-production'',
                   jwt_expiration = 24 \<rparr>,
       cfg_openai = \<lparr> openai_api_key = [], openai_model = ''text-embedding-ada-002'',
                      openai_max_tokens = 1000 \<rparr> \<rparr>"

section \<open>Store adapters (internal/database)\<close>

text \<open>The verb \<^verbatim>\<open>%d\<close> of \<^verbatim>\<open>fmt.Sprintf\<close>.\<close>

fun digits :: "nat \<Rightarrow> string" where
  "digits n =
     (if n < 10 then [''0123456789'' ! n]
      else digits (n div 10) @ [''0123456789'' ! (n mod 10)])"

definition itoa :: "int \<Rightarrow> string" where
  "itoa i = (if i < 0 then CHR ''-'' # digits (nat (- i)) else digits (nat i))"

text \<open>Durations are \<^verbatim>\<open>time.Duration\<close> values, a count of nanoseconds.\<close>

definition second :: nat where
  "second = 1000000000"

definition minute :: nat where
  "minute = 60 * second"

record 'c PostgresDB =
  pg_db :: 'c
  pg_max_open_conns :: nat
  pg_max_idle_conns :: nat
  pg_conn_max_lifetime :: nat

definition NewPostgresDB :: "'c system \<Rightarrow> DatabaseConfig \<Rightarrow> string + 'c PostgresDB" where
  "NewPostgresDB sys cfg0 =
     (let cfg = cfg0\<lparr> db_host := env_override sys ''DB_HOST'' (db_host cfg0),
                      db_user := env_override sys ''DB_USER'' (db_user cfg0),
                      db_password := env_override sys ''DB_PASSWORD'' (db_password cfg0),
                      db_name := env_override sys ''DB_NAME'' (db_name cfg0) \<rparr>;
          connStr = ''host='' @ db_host cfg @ '' port='' @ itoa (db_port cfg) @
                    '' user='' @ db_user cfg @ '' password='' @ db_password cfg @
                    '' dbname='' @ db_name cfg @ '' sslmode='' @ db_sslmode cfg
      in case sys_sql_open sys connStr of
           Inl err \<Rightarrow> Inl (''failed to open database connection: '' @ err)
         | Inr db \<Rightarrow>
             (case sys_db_ping sys db of
                Some err \<Rightarrow> Inl (''failed to ping database: '' @ err)
              | None \<Rightarrow>
                  Inr \<lparr> pg_db = db, pg_max_open_conns = 25, pg_max_idle_conns = 25,
                        pg_conn_max_lifetime = 5 * minute \<rparr>))"

definition NewRedisClient :: "'c system \<Rightarrow> RedisConfig \<Rightarrow> string + redis_options" where
  "NewRedisClient sys cfg0 =
     (let cfg = cfg0\<lparr> redis_host := env_override sys ''REDIS_HOST'' (redis_host cfg0),
                      redis_port := env_override_int sys ''REDIS_PORT'' (redis_port cfg0),
                      redis_password := env_override sys ''REDIS_PASSWORD'' (redis_password cfg0) \<rparr>;
          client = \<lparr> opt_addr = redis_host cfg @ '':'' @ itoa (redis_port cfg),
                     opt_password = redis_password cfg,
                     opt_db = redis_db cfg \<rparr>
      in case sys_redis_ping sys client of
           Some err \<Rightarrow> Inl (''failed to ping Redis: '' @ err)
         | None \<Rightarrow> Inr client)"

text \<open>
  The methods of \<^verbatim>\<open>RedisClient\<close>. Each is one call on the go-redis client, which
  sends one command to the server; a method is the commands it sends. Durations are
  passed on as they come; \<^verbatim>\<open>Set\<close> passes the expiration 0, none.
\<close>

datatype redis_command =
    SET string string nat
  | GET string
  | DEL string
  | EXISTS string
  | INCR string
  | DECR string
  | EXPIRE string nat
  | TTL string
  | KEYS string
  | FLUSHDB

definition RedisClient_SetWithExpiration :: "string \<Rightarrow> string \<Rightarrow> nat \<Rightarrow> redis_command list" where
  "RedisClient_SetWithExpiration key v expiration = [SET key v expiration]"

definition RedisClient_Get :: "string \<Rightarrow> redis_command list" where
  "RedisClient_Get key = [GET key]"

definition RedisClient_Delete :: "string \<Rightarrow> redis_command list" where
  "RedisClient_Delete key = [DEL key]"

definition RedisClient_Exists :: "string \<Rightarrow> redis_command list" where
  "RedisClient_Exists key = [EXISTS key]"

definition RedisClient_Set :: "string \<Rightarrow> string \<Rightarrow> redis_command list" where
  "RedisClient_Set key v = [SET key v 0]"

definition RedisClient_Increment :: "string \<Rightarrow> redis_command list" where
  "RedisClient_Increment key = [INCR key]"

definition RedisClient_Decrement :: "string \<Rightarrow> redis_command list" where
  "RedisClient_Decrement key = [DECR key]"

definition RedisClient_SetExpiration :: "string \<Rightarrow> nat \<Rightarrow> redis_command list" where
  "RedisClient_SetExpiration key expiration = [EXPIRE key expiration]"

definition RedisClient_GetExpiration :: "string \<Rightarrow> redis_command list" where
  "RedisClient_GetExpiration key = [TTL key]"

definition RedisClient_Keys :: "string \<Rightarrow> redis_command list" where
  "RedisClient_Keys pattern = [KEYS pattern]"

definition RedisClient_FlushDB :: "redis_command list" where
  "RedisClient_FlushDB = [FLUSHDB]"

text \<open>
  A command that reads the value of a key, and one that writes a value the client
  sends. \<^verbatim>\<open>INCR\<close>, \<^verbatim>\<open>DECR\<close> and \<^verbatim>\<open>EXPIRE\<close> are neither: the server
  computes the new value or deadline itself, in one step.
\<close>

fun reads_value :: "redis_command \<Rightarrow> bool" where
  "reads_value (GET key) = True"
| "reads_value c = False"

fun writes_value :: "redis_command \<Rightarrow> bool" where
  "writes_value (SET key v expiration) = True"
| "writes_value c = False"

section \<open>The server (cmd/server, \<^verbatim>\<open>main\<close>)\<close>

subsection \<open>Startup\<close>

text \<open>
  \<^verbatim>\<open>main\<close> up to the point where it listens. \<^verbatim>\<open>log.Fatal().Err(err).Msg(m)\<close>
  writes \<open>m\<close> and ends the process (\<open>Fatal m\<close>); otherwise the server is set up with
  the two adapters and the listening address (\<open>Serving\<close>).
\<close>

datatype 'c startup =
    Fatal string
  | Serving "'c PostgresDB" redis_options string

definition main_startup :: "'c system \<Rightarrow> string \<Rightarrow> 'c startup" where
  "main_startup sys configFile =
     (case Load sys configFile of
        Inl err \<Rightarrow> Fatal ''Failed to load configuration''
      | Inr cfg \<Rightarrow>
          (case NewPostgresDB sys (cfg_database cfg) of
             Inl err \<Rightarrow> Fatal ''Failed to connect to database''
           | Inr db \<Rightarrow>
               (case NewRedisClient sys (cfg_redis cfg) of
                  Inl err \<Rightarrow> Fatal ''Failed to connect to Redis''
                | Inr redisClient \<Rightarrow>
                    Serving db redisClient ('':'' @ itoa (server_port (cfg_server cfg))))))"

text \<open>
  The calls of \<^verbatim>\<open>main\<close> that build a service, a handler, the token verifier
  or a middleware, each with the arguments it is given as the source writes them, in
  the order of the source. The Redis client goes to the five services; the
  middlewares are built from constants and the token verifier. (\<^verbatim>\<open>main\<close>
  itself uses the client once more, to close it when it returns.)
\<close>

definition main_calls :: "(string \<times> string list) list" where
  \<open>main_calls =
     [(''services.NewUserService'', [''db'', ''redisClient'']),
      (''services.NewProductService'', [''db'', ''redisClient'']),
      (''services.NewOrderService'', [''db'', ''redisClient'']),
      (''services.NewSearchService'', [''db'', ''redisClient'']),
      (''services.NewNotificationService'', [''db'', ''redisClient'']),
      (''handlers.NewUserHandler'', [''userService'']),
      (''handlers.NewProductHandler'', [''productService'', ''searchService'']),
      (''handlers.NewOrderHandler'', [''orderService'']),
      (''handlers.NewNotificationHandler'', [''notificationService'']),
      (''jwtauth.New'', [''"HS256"'', ''[]byte(cfg.JWT.Secret)'', ''nil'']),
      (''middleware.Timeout'', [''30 * time.Second'']),
      (''cors.Handler'', [''cors.Options{...}'']),
      (''httprate.LimitByIP'', [''100'', ''1 * time.Minute'']),
      (''middleware.JWTAuth'', [''tokenAuth'']),
      (''middleware.SetHeader'', [''"Authorization"'', ''"Bearer"''])]\<close>

subsection \<open>The router\<close>

text \<open>
  The calls \<^verbatim>\<open>main\<close> makes on the chi router, kept as data in the order and the
  nesting of the source. A handler is named as the source names it; the closure
  registered for \<^verbatim>\<open>/health\<close> has no name there and is called \<open>health\<close>.
  The duration arguments are written as in the source, \<^verbatim>\<open>30 * time.Second\<close>
  and \<^verbatim>\<open>1 * time.Minute\<close>.
\<close>

record cors_options =
  AllowedOrigins :: "string list"
  AllowedMethods :: "string list"
  AllowedHeaders :: "string list"
  ExposedHeaders :: "string list"
  AllowCredentials :: bool
  MaxAge :: nat

datatype middleware =
    RequestID
  | RealIP
  | Logger
  | Recoverer
  | Timeout nat
  | CorsHandler cors_options
  | LimitByIP nat nat
  | JWTAuth string string
  | SetHeader string string

datatype router_call =
    Use middleware
  | Get string string
  | Post string string
  | Put string string
  | Delete string string
  | Route string "router_call list"
  | Group "router_call list"

text \<open>The \<^verbatim>\<open>cors.Options\<close> literal that \<^verbatim>\<open>main\<close> passes to \<^verbatim>\<open>cors.Handler\<close>.\<close>

definition cors_policy :: cors_options where
  "cors_policy =
     \<lparr> AllowedOrigins = [''http://localhost:3000'', ''http://localhost:3001''],
       AllowedMethods = [''GET'', ''POST'', ''PUT'', ''DELETE'', ''OPTIONS''],
       AllowedHeaders = [''Accept'', ''Authorization'', ''Content-Type'', ''X-CSRF-Token''],
       ExposedHeaders = [''Link''],
       AllowCredentials = True,
       MaxAge = 300 \<rparr>"

definition main_router :: "string \<Rightarrow> router_call list" where
  "main_router secret =
   [ Use RequestID,
     Use RealIP,
     Use Logger,
     Use Recoverer,
     Use (Timeout (30 * second)),
     Use (CorsHandler cors_policy),
     Use (LimitByIP 100 (1 * minute)),
     Get ''/health'' ''health'',
     Route ''/api/v1''
     [ Post ''/auth/register'' ''userHandler.Register'',
       Post ''/auth/login'' ''userHandler.Login'',
       Post ''/auth/refresh'' ''userHandler.RefreshToken'',
       Get ''/categories'' ''productHandler.GetCategories'',
       Group
       [ Use (JWTAuth ''HS256'' secret),
         Use (SetHeader ''Authorization'' ''Bearer''),
         Get ''/users/profile'' ''userHandler.GetProfile'',
         Put ''/users/profile'' ''userHandler.UpdateProfile'',
         Get ''/users/preferences'' ''userHandler.GetPreferences'',
         Put ''/users/preferences'' ''userHandler.UpdatePreferences'',
         Post ''/products'' ''productHandler.CreateProduct'',
         Get ''/products'' ''productHandler.GetProducts'',
         Get ''/products/{id}'' ''productHandler.GetProduct'',
         Put ''/products/{id}'' ''productHandler.UpdateProduct'',
         Delete ''/products/{id}'' ''productHandler.DeleteProduct'',
         Get ''/products/{id}/similar'' ''productHandler.GetSimilarProducts'',
         Post ''/products/{id}/reviews'' ''productHandler.CreateReview'',
         Get ''/products/{id}/reviews'' ''productHandler.GetReviews'',
         Get ''/search'' ''productHandler.SearchProducts'',
         Post ''/search/semantic'' ''productHandler.SemanticSearch'',
         Get ''/cart'' ''productHandler.GetCart'',
         Post ''/cart'' ''productHandler.AddToCart'',
         Put ''/cart/{productId}'' ''productHandler.UpdateCartItem'',
         Delete ''/cart/{productId}'' ''productHandler.RemoveFromCart'',
         Get ''/wishlist'' ''productHandler.GetWishlist'',
         Post ''/wishlist/{productId}'' ''productHandler.AddToWishlist'',
         Delete ''/wishlist/{productId}'' ''productHandler.RemoveFromWishlist'',
         Post ''/orders'' ''orderHandler.CreateOrder'',
         Get ''/orders'' ''orderHandler.GetOrders'',
         Get ''/orders/{id}'' ''orderHandler.GetOrder'',
         Put ''/orders/{id}/status'' ''orderHandler.UpdateOrderStatus'',
         Post ''/orders/{id}/payment'' ''orderHandler.ProcessPayment'',
         Get ''/notifications'' ''notificationHandler.GetNotifications'',
         Put ''/notifications/{id}/read'' ''notificationHandler.MarkAsRead'',
         Delete ''/notifications/{id}'' ''notificationHandler.DeleteNotification'' ] ] ]"

text \<open>
  What chi makes of the calls: \<^verbatim>\<open>Use\<close> appends a middleware to the stack of the
  router it is called on, for the routes registered after it; \<^verbatim>\<open>Route\<close> mounts a
  sub-router under a path prefix and \<^verbatim>\<open>Group\<close> opens an inline one, both behind
  the stack built so far; a route is registered with the stack current at that
  point. The result is the route table: method, full pattern, stack (outermost
  first) and handler.
\<close>

record route =
  rt_method :: string
  rt_pattern :: string
  rt_stack :: "middleware list"
  rt_handler :: string

fun routes :: "middleware list \<Rightarrow> string \<Rightarrow> router_call list \<Rightarrow> route list" where
  "routes stack prefix [] = []"
| "routes stack prefix (Use m # calls) = routes (stack @ [m]) prefix calls"
| "routes stack prefix (Get pattern h # calls) =
     \<lparr> rt_method = ''GET'', rt_pattern = prefix @ pattern, rt_stack = stack, rt_handler = h \<rparr>
       # routes stack prefix calls"
| "routes stack prefix (Post pattern h # calls) =
     \<lparr> rt_method = ''POST'', rt_pattern = prefix @ pattern, rt_stack = stack, rt_handler = h \<rparr>
       # routes stack prefix calls"
| "routes stack prefix (Put pattern h # calls) =
     \<lparr> rt_method = ''PUT'', rt_pattern = prefix @ pattern, rt_stack = stack, rt_handler = h \<rparr>
       # routes stack prefix calls"
| "routes stack prefix (Delete pattern h # calls) =
     \<lparr> rt_method = ''DELETE'', rt_pattern = prefix @ pattern, rt_stack = stack, rt_handler = h \<rparr>
       # routes stack prefix calls"
| "routes stack prefix (Route pattern sub # calls) =
     routes stack (prefix @ pattern) sub @ routes stack prefix calls"
| "routes stack prefix (Group sub # calls) =
     routes stack prefix sub @ routes stack prefix calls"

definition route_table :: "string \<Rightarrow> route list" where
  "route_table secret = routes [] [] (main_router secret)"

text \<open>
  Serving a request. A handler maps the request and the state of the world to a
  response and the state afterwards; a middleware is a function from the next
  handler to a handler, and the stack is applied outermost first, so that the
  first middleware decides whether the second is ever entered. What each
  middleware does is chi's, httprate's and the repository's own
  \<^verbatim>\<open>internal/middleware\<close> package's business: \<open>impl\<close> is a
  parameter, and so are the handlers other than the health check.
\<close>

record request =
  rq_method :: string
  rq_path :: string
  rq_header :: "(string \<times> string) list"
  rq_remote_addr :: string

record response =
  rs_status :: nat
  rs_header :: "(string \<times> string) list"
  rs_body :: string

type_synonym 'w http_handler = "request \<Rightarrow> 'w \<Rightarrow> response \<times> 'w"

fun chain :: "('w http_handler \<Rightarrow> 'w http_handler) list \<Rightarrow> 'w http_handler \<Rightarrow> 'w http_handler" where
  "chain [] endpoint = endpoint"
| "chain (m # ms) endpoint = m (chain ms endpoint)"

definition serve ::
  "(middleware \<Rightarrow> 'w http_handler \<Rightarrow> 'w http_handler) \<Rightarrow> (string \<Rightarrow> 'w http_handler) \<Rightarrow>
   route \<Rightarrow> 'w http_handler" where
  "serve impl handlers r = chain (map impl (rt_stack r)) (handlers (rt_handler r))"

subsection \<open>The health check\<close>

text \<open>
  The state of the world a handler can reach: the two stores and the clock. The
  closure registered for \<^verbatim>\<open>/health\<close> sets one header and writes the body, which
  makes the status 200; \<^verbatim>\<open>time.Now().Format(time.RFC3339)\<close> is the clock read
  through \<open>rfc3339\<close>, a parameter. The closure touches nothing else, so it is a
  handler on every state that has these three parts.
\<close>

record 'v world =
  w_database :: "'v database"
  w_cache :: "string \<Rightarrow> string option"
  w_clock :: timestamp

definition health :: "(timestamp \<Rightarrow> string) \<Rightarrow> ('v, 'z) world_scheme http_handler" where
  \<open>health rfc3339 r w =
     (\<lparr> rs_status = 200,
        rs_header = [(''Content-Type'', ''application/json'')],
        rs_body = ''{"status": "healthy", "timestamp": "'' @ rfc3339 (w_clock w) @ ''"}'' \<rparr>,
      w)\<close>

subsection \<open>The stages before a handler\<close>

text \<open>
  A middleware is a \<^verbatim>\<open>func(next http.Handler) http.Handler\<close>: its handler works
  on the request and then either writes the response itself or calls \<^verbatim>\<open>next\<close>,
  on the request as it now is, and when \<^verbatim>\<open>next\<close> returns it may work on the
  response. \<open>stage\<close> is that shape, with the work on the way in (\<open>before\<close>) and on
  the way back (\<open>after\<close>) as its two parts; \<open>descend\<close> is the way in through a
  whole stack, down to the first stage that answers or to the handler.
\<close>

datatype 'w verdict =
    Answer response 'w
  | Pass request 'w

definition stage ::
  "(request \<Rightarrow> 'w \<Rightarrow> 'w verdict) \<Rightarrow> (request \<Rightarrow> response \<Rightarrow> 'w \<Rightarrow> response \<times> 'w) \<Rightarrow>
   'w http_handler \<Rightarrow> 'w http_handler" where
  "stage before after next rq w =
     (case before rq w of
        Answer rs w' \<Rightarrow> (rs, w')
      | Pass rq' w' \<Rightarrow> (case next rq' w' of (rs, w'') \<Rightarrow> after rq' rs w''))"

fun descend ::
  "(middleware \<Rightarrow> request \<Rightarrow> 'w \<Rightarrow> 'w verdict) \<Rightarrow> middleware list \<Rightarrow> request \<Rightarrow> 'w \<Rightarrow> 'w verdict" where
  "descend before [] rq w = Pass rq w"
| "descend before (m # ms) rq w =
     (case before m rq w of
        Answer rs w' \<Rightarrow> Answer rs w'
      | Pass rq' w' \<Rightarrow> descend before ms rq' w')"

text \<open>The state a stage leaves behind, whichever way it decides.\<close>

fun verdict_state :: "'w verdict \<Rightarrow> 'w" where
  "verdict_state (Answer rs w) = w"
| "verdict_state (Pass rq w) = w"

text \<open>
  The rate limiter, \<^verbatim>\<open>httprate.LimitByIP(100, 1*time.Minute)\<close>. \<^verbatim>\<open>main\<close> gives
  it the two numbers and nothing else, no Redis client among them: its counters are
  its own, in the memory of the process (\<open>w_limiter\<close>), keyed by the address of the
  client. Which requests of a window it lets through is the library's algorithm, the
  parameter \<open>counter\<close>: from the limit, the window, the address, the time and the
  counters, whether the request is over the limit, and the counters afterwards. A
  request over the limit is answered with status 429 and \<^verbatim>\<open>next\<close> is not called
  (the headers the library adds are left out).
\<close>

record ('v, 's) process = "'v world" +
  w_limiter :: 's

definition limit_by_ip ::
  "(nat \<Rightarrow> nat \<Rightarrow> string \<Rightarrow> timestamp \<Rightarrow> 's \<Rightarrow> bool \<times> 's) \<Rightarrow> nat \<Rightarrow> nat \<Rightarrow>
   request \<Rightarrow> ('v, 's) process \<Rightarrow> ('v, 's) process verdict" where
  "limit_by_ip counter request_limit window_length rq w =
     (case counter request_limit window_length (rq_remote_addr rq) (w_clock w) (w_limiter w) of
        (over, counters) \<Rightarrow>
          if over
          then Answer \<lparr> rs_status = 429, rs_header = [], rs_body = ''Too Many Requests'' \<rparr>
                 (w\<lparr> w_limiter := counters \<rparr>)
          else Pass rq (w\<lparr> w_limiter := counters \<rparr>))"

text \<open>
  The way in of each middleware of \<^verbatim>\<open>main\<close>: the rate limiter as above, the
  others (chi's, the CORS package's and the repository's own
  \<^verbatim>\<open>internal/middleware\<close> package's) a parameter, \<open>library\<close>.
\<close>

definition stages_before ::
  "(nat \<Rightarrow> nat \<Rightarrow> string \<Rightarrow> timestamp \<Rightarrow> 's \<Rightarrow> bool \<times> 's) \<Rightarrow>
   (middleware \<Rightarrow> request \<Rightarrow> ('v, 's) process \<Rightarrow> ('v, 's) process verdict) \<Rightarrow>
   middleware \<Rightarrow> request \<Rightarrow> ('v, 's) process \<Rightarrow> ('v, 's) process verdict" where
  "stages_before counter library m =
     (case m of
        LimitByIP request_limit window_length \<Rightarrow> limit_by_ip counter request_limit window_length
      | _ \<Rightarrow> library m)"

section \<open>Example data\<close>

text \<open>
  A small catalogue on which the statements below are run. Vectors are single
  integers, the distance is the absolute difference, and every query text embeds to
  the vector 4.
\<close>

definition example_embed :: "string \<Rightarrow> sql_error + int option" where
  "example_embed query_text = Inr (Some 4)"

definition example_dist :: "int \<Rightarrow> int \<Rightarrow> sql_error + int" where
  "example_dist a b = Inr \<bar>a - b\<bar>"

definition lamp :: products_row where
  "lamp = \<lparr> p_id = 1, p_seller_id = 100, p_category_id = Some 10, p_title = ''lamp'',
            p_description = Some ''brass reading lamp'', p_price = 4500,
            p_stock_quantity = Some 3, p_is_active = Some True,
            p_updated_at = Some 1000, p_deleted_at = None \<rparr>"

definition desk :: products_row where
  "desk = \<lparr> p_id = 2, p_seller_id = 100, p_category_id = Some 10, p_title = ''desk'',
            p_description = None, p_price = 12000,
            p_stock_quantity = Some 1, p_is_active = Some True,
            p_updated_at = Some 1000, p_deleted_at = None \<rparr>"

definition chair :: products_row where
  "chair = \<lparr> p_id = 3, p_seller_id = 101, p_category_id = Some 10, p_title = ''chair'',
             p_description = None, p_price = 3000,
             p_stock_quantity = Some 0, p_is_active = Some False,
             p_updated_at = Some 1000, p_deleted_at = None \<rparr>"

definition shelf :: products_row where
  "shelf = \<lparr> p_id = 4, p_seller_id = 101, p_category_id = Some 11, p_title = ''shelf'',
             p_description = None, p_price = 8000,
             p_stock_quantity = Some 2, p_is_active = Some True,
             p_updated_at = Some 1000, p_deleted_at = None \<rparr>"

definition rug :: products_row where
  "rug = \<lparr> p_id = 5, p_seller_id = 101, p_category_id = Some 11, p_title = ''rug'',
           p_description = None, p_price = 9900,
           p_stock_quantity = Some 7, p_is_active = Some True,
           p_updated_at = Some 1000, p_deleted_at = None \<rparr>"

definition vase :: products_row where
  "vase = \<lparr> p_id = 6, p_seller_id = 100, p_category_id = None, p_title = ''vase'',
            p_description = None, p_price = 2500,
            p_stock_quantity = Some 4, p_is_active = Some True,
            p_updated_at = Some 2000, p_deleted_at = Some 2000 \<rparr>"

definition embedding_of :: "uuid \<Rightarrow> int option \<Rightarrow> int product_embeddings_row" where
  "embedding_of pid v =
     \<lparr> pe_product_id = pid, pe_title_embedding = v, pe_description_embedding = None,
       pe_combined_embedding = v, pe_updated_at = Some 1000 \<rparr>"

text \<open>
  The shelf has no embedding row; the rug has one whose combined embedding is
  \<^verbatim>\<open>NULL\<close>.
\<close>

definition example_products :: "products_row list" where
  "example_products = [lamp, desk, chair, shelf, rug]"

definition example_embeddings :: "int product_embeddings_row list" where
  "example_embeddings =
     [embedding_of 1 (Some 0), embedding_of 2 (Some 5), embedding_of 3 (Some 4),
      embedding_of 5 None]"

text \<open>
  A user, and for the registrations below a password rule (at least eight
  characters) and a stand-in for the password hash.
\<close>

definition alice :: users_row where
  "alice = \<lparr> u_id = 100, u_email = ''alice@example.com'', u_username = ''alice'',
             u_password_hash = ''hash-of-password'', u_full_name = Some ''Alice'',
             u_avatar_url = None, u_phone = None, u_verification_level = Some ''basic'',
             u_updated_at = Some 1000, u_is_active = Some True \<rparr>"

definition example_weak :: "string \<Rightarrow> bool" where
  "example_weak password = (length password < 8)"

definition example_hash :: "string \<Rightarrow> string" where
  "example_hash password = ''hash-of-'' @ password"

text \<open>
  A database in which the lamp has an embedding, a review and a wishlist entry, and
  the desk has an embedding and has been ordered once.
\<close>

definition example_database :: "int database" where
  "example_database =
     \<lparr> users = [alice],
       products = [lamp, desk],
       product_embeddings = [embedding_of 1 (Some 0), embedding_of 2 (Some 5)],
       reviews = [\<lparr> rv_id = 300, rv_product_id = 1, rv_buyer_id = 100, rv_seller_id = 100,
                    rv_rating = Some 5, rv_updated_at = Some 1000 \<rparr>],
       order_items = [\<lparr> oi_id = 400, oi_order_id = 500, oi_product_id = 2, oi_quantity = 1,
                        oi_price = 12000, oi_total_price = 12000 \<rparr>],
       cart = [],
       wishlist = [\<lparr> wl_id = 600, wl_user_id = 100, wl_product_id = 1 \<rparr>] \<rparr>"

text \<open>
  Three machines. On each the configuration file decodes to the default
  configuration, no environment variable is set and the SQL driver opens. On the
  first, both stores answer; on the second, PostgreSQL refuses the ping; on the
  third, Redis does.
\<close>

definition healthy_system :: "nat system" where
  "healthy_system =
     \<lparr> sys_getenv = (\<lambda>key. []),
       sys_read_file = (\<lambda>filename. Inr ''environment: development''),
       sys_yaml_unmarshal = (\<lambda>data. Inr DefaultConfig),
       sys_sscanf_d = (\<lambda>s. None),
       sys_sql_open = (\<lambda>connStr. Inr 0),
       sys_db_ping = (\<lambda>db. None),
       sys_redis_ping = (\<lambda>client. None) \<rparr>"

definition postgres_down :: "nat system" where
  "postgres_down = healthy_system\<lparr> sys_db_ping := (\<lambda>db. Some ''connection refused'') \<rparr>"

definition redis_down :: "nat system" where
  "redis_down = healthy_system\<lparr> sys_redis_ping := (\<lambda>client. Some ''connection refused'') \<rparr>"

text \<open>
  A request without an \<^verbatim>\<open>Authorization\<close> header, a world, a clock format, a
  stub for every handler but the health check, and two ways the middlewares may
  behave: all of them passing the request on; the JWT stage answering 401 to
  everything.
\<close>

definition anonymous_request :: request where
  "anonymous_request =
     \<lparr> rq_method = ''GET'', rq_path = ''/health'', rq_header = [(''Accept'', ''*/*'')],
       rq_remote_addr = ''203.0.113.7:51234'' \<rparr>"

definition example_world :: "int world" where
  "example_world =
     \<lparr> w_database = example_database, w_cache = (\<lambda>key. None), w_clock = 1767225600000000 \<rparr>"

definition example_rfc3339 :: "timestamp \<Rightarrow> string" where
  "example_rfc3339 t = ''2026-01-01T00:00:00Z''"

definition example_handlers :: "string \<Rightarrow> int world http_handler" where
  "example_handlers name =
     (if name = ''health'' then health example_rfc3339
      else (\<lambda>r w. (\<lparr> rs_status = 200, rs_header = [], rs_body = name \<rparr>, w)))"

definition pass_all :: "middleware \<Rightarrow> int world http_handler \<Rightarrow> int world http_handler" where
  "pass_all m next = next"

definition reject_all_tokens ::
  "middleware \<Rightarrow> int world http_handler \<Rightarrow> int world http_handler" where
  "reject_all_tokens m next =
     (case m of
        JWTAuth alg key \<Rightarrow>
          (\<lambda>r w. (\<lparr> rs_status = 401, rs_header = [], rs_body = ''Unauthorized'' \<rparr>, w))
      | _ \<Rightarrow> next)"

text \<open>
  A process for the stages: the example world with a rate limiter that counts the
  requests of each address in the current window and lets the first
  \<open>request_limit\<close> of them through. In the first process no request has been
  counted; in the second every client has used up a quota of 100.
\<close>

definition example_counter ::
  "nat \<Rightarrow> nat \<Rightarrow> string \<Rightarrow> timestamp \<Rightarrow> (string \<Rightarrow> nat) \<Rightarrow> bool \<times> (string \<Rightarrow> nat)" where
  "example_counter request_limit window_length addr now counters =
     (if request_limit \<le> counters addr then (True, counters)
      else (False, counters(addr := counters addr + 1)))"

definition example_process :: "(int, string \<Rightarrow> nat) process" where
  "example_process =
     \<lparr> w_database = example_database, w_cache = (\<lambda>key. None), w_clock = 1767225600000000,
       w_limiter = (\<lambda>addr. 0) \<rparr>"

definition busy_process :: "(int, string \<Rightarrow> nat) process" where
  "busy_process = example_process\<lparr> w_limiter := (\<lambda>addr. 100) \<rparr>"

text \<open>Library stages that pass every request on and every response back.\<close>

definition passing :: "middleware \<Rightarrow> request \<Rightarrow> 'w \<Rightarrow> 'w verdict" where
  "passing m rq w = Pass rq w"

definition returning :: "middleware \<Rightarrow> request \<Rightarrow> response \<Rightarrow> 'w \<Rightarrow> response \<times> 'w" where
  "returning m rq rs w = (rs, w)"

section \<open>Properties of the ordering\<close>

lemma nulls_last_le_total: "nulls_last_le a b \<or> nulls_last_le b a"
  by (cases a; cases b) auto

lemma nulls_last_le_trans:
  "nulls_last_le a b \<Longrightarrow> nulls_last_le b c \<Longrightarrow> nulls_last_le a c"
  by (cases a; cases b; cases c) auto

lemma set_insert_by: "set (insert_by k x xs) = insert x (set xs)"
  by (induction xs) auto

lemma set_order_by: "set (order_by k xs) = set xs"
  by (induction xs) (auto simp: set_insert_by)

lemma length_insert_by: "length (insert_by k x xs) = Suc (length xs)"
  by (induction xs) auto

lemma length_order_by: "length (order_by k xs) = length xs"
  by (induction xs) (auto simp: length_insert_by)

lemma sorted_insert_by:
  "sorted_wrt (\<lambda>a b. nulls_last_le (k a) (k b)) xs \<Longrightarrow>
   sorted_wrt (\<lambda>a b. nulls_last_le (k a) (k b)) (insert_by k x xs)"
proof (induction xs)
  case Nil
  then show ?case by simp
next
  case (Cons y ys)
  show ?case
  proof (cases "nulls_last_le (k x) (k y)")
    case True
    have "nulls_last_le (k x) (k z)" if "z \<in> set ys" for z
      using that Cons.prems True nulls_last_le_trans [of "k x" "k y" "k z"] by auto
    with True Cons.prems show ?thesis by auto
  next
    case False
    then have "nulls_last_le (k y) (k x)"
      using nulls_last_le_total [of "k x" "k y"] by blast
    with False Cons show ?thesis by (auto simp: set_insert_by)
  qed
qed

lemma sorted_order_by: "sorted_wrt (\<lambda>a b. nulls_last_le (k a) (k b)) (order_by k xs)"
  by (induction xs) (auto intro: sorted_insert_by)

section \<open>Semantic search: the returned sequence\<close>

lemma mset_insert_by: "mset (insert_by k x xs) = add_mset x (mset xs)"
  by (induction xs) auto

lemma mset_order_by: "mset (order_by k xs) = mset xs"
  by (induction xs) (auto simp: mset_insert_by)

text \<open>
  The sort leaves a sorted sequence as it is: whichever order of the ties the
  executor delivers is the order of the result.
\<close>

lemma insert_by_sorted:
  assumes "\<forall>y \<in> set xs. nulls_last_le (k x) (k y)"
  shows "insert_by k x xs = x # xs"
  using assms by (cases xs) auto

lemma order_by_sorted:
  assumes "sorted_wrt (\<lambda>a b. nulls_last_le (k a) (k b)) xs"
  shows "order_by k xs = xs"
  using assms by (induction xs) (auto simp: insert_by_sorted)

lemma set_join_embeddings:
  "set (join_embeddings ps pes) =
     {(p, pe). p \<in> set ps \<and> pe \<in> set pes \<and> p_id p = pe_product_id pe}"
  by (auto simp: join_embeddings_def)

lemma set_from_where:
  "set (from_where c ps pes) =
     {(p, pe). p \<in> set ps \<and> pe \<in> set pes \<and> p_id p = pe_product_id pe \<and> search_where c p}"
  by (auto simp: from_where_def set_join_embeddings)

lemma with_distances_Inr:
  assumes "with_distances dist q rows = Inr keyed"
  shows "map snd keyed = rows \<and>
         (\<forall>k \<in> set keyed. distance_op dist (pe_combined_embedding (snd (snd k))) q = Inr (fst k))"
  using assms
proof (induction rows arbitrary: keyed)
  case Nil
  then show ?case by simp
next
  case (Cons ppe rows)
  from Cons.prems obtain d rest where
    d: "distance_op dist (pe_combined_embedding (snd ppe)) q = Inr d"
    and rest: "with_distances dist q rows = Inr rest"
    and keyed: "keyed = (d, ppe) # rest"
    by (auto split: sum.splits)
  from Cons.IH [OF rest] d show ?case unfolding keyed by simp
qed

lemma with_distances_returns:
  assumes "\<forall>ppe \<in> set rows. \<exists>d. distance_op dist (pe_combined_embedding (snd ppe)) q = Inr d"
  shows "\<exists>keyed. with_distances dist q rows = Inr keyed"
  using assms by (induction rows) auto

lemma search_Inr:
  assumes "search_products_semantic e dist ex ps pes qt c l off = Inr rs"
  shows "check_limit_offset l off = None \<and>
         ((l = Some 0 \<or> ex (from_where c ps pes) = []) \<and> rs = [] \<or>
          l \<noteq> Some 0 \<and> ex (from_where c ps pes) \<noteq> [] \<and>
          (\<exists>q keyed. e qt = Inr q \<and>
             with_distances dist q (ex (from_where c ps pes)) = Inr keyed \<and>
             rs = map select_row (limit_offset l off (order_by fst keyed))))"
  using assms unfolding search_products_semantic_def Let_def
  by (auto split: option.splits sum.splits if_splits)

lemma limit_offset_zero: "limit_offset (Some 0) off xs = []"
  by (simp add: limit_offset_def)

lemma sorted_no_distance:
  "sorted_wrt (\<lambda>a b. nulls_last_le (fst a) (fst b)) (map (Pair None) xs)"
  by (induction xs) auto

lemma search_ranking:
  assumes perm: "\<And>rows. mset (ex rows) = mset rows"
    and run: "search_products_semantic e dist ex ps pes qt c l off = Inr rs"
  shows "\<exists>keyed.
           mset (map snd keyed) = mset (from_where c ps pes) \<and>
           sorted_wrt (\<lambda>a b. nulls_last_le (fst a) (fst b)) keyed \<and>
           rs = map select_row (limit_offset l off keyed) \<and>
           (l \<noteq> Some 0 \<longrightarrow>
              (\<forall>k \<in> set keyed. \<exists>q. e qt = Inr q \<and>
                 distance_op dist (pe_combined_embedding (snd (snd k))) q = Inr (fst k)))"
proof -
  note s = search_Inr [OF run]
  let ?rows = "ex (from_where c ps pes)"
  consider (none) "l = Some 0" "rs = []"
    | (empty) "?rows = []" "rs = []"
    | (ranked) q keyed where "l \<noteq> Some 0" "e qt = Inr q"
        "with_distances dist q ?rows = Inr keyed"
        "rs = map select_row (limit_offset l off (order_by fst keyed))"
    using s by blast
  then show ?thesis
  proof cases
    case none
    let ?keyed = "map (Pair None) (from_where c ps pes)"
    have "mset (map snd ?keyed) = mset (from_where c ps pes)"
      by (simp add: comp_def)
    moreover have "rs = map select_row (limit_offset l off ?keyed)"
      using none by (simp add: limit_offset_zero)
    ultimately show ?thesis
      using sorted_no_distance [of "from_where c ps pes"] none(1) by blast
  next
    case empty
    from empty(1) perm [of "from_where c ps pes"] have "from_where c ps pes = []"
      by (metis mset_zero_iff)
    with empty(2) show ?thesis
      by (intro exI [of _ "[]"]) (simp add: limit_offset_def split: option.splits)
  next
    case ranked
    let ?sorted = "order_by fst keyed"
    note w = with_distances_Inr [OF ranked(3)]
    have "mset (map snd ?sorted) = mset (map snd keyed)"
      using mset_order_by [of fst keyed] by (metis mset_map)
    also have "\<dots> = mset (from_where c ps pes)"
      using w perm by simp
    finally have m: "mset (map snd ?sorted) = mset (from_where c ps pes)" .
    have d: "\<forall>k \<in> set ?sorted. \<exists>q. e qt = Inr q \<and>
        distance_op dist (pe_combined_embedding (snd (snd k))) q = Inr (fst k)"
      using w ranked(2) by (simp add: set_order_by)
    from m d sorted_order_by [of fst keyed] ranked(4) show ?thesis by blast
  qed
qed

lemma search_returns:
  assumes "check_limit_offset l off = None"
    and "l = Some 0 \<or> from_where c ps pes = [] \<or>
         e qt = Inr q \<and>
         (\<forall>ppe \<in> set (from_where c ps pes).
            \<exists>d. distance_op dist (pe_combined_embedding (snd ppe)) q = Inr d)"
    and perm: "\<And>rows. mset (ex rows) = mset rows"
  shows "\<exists>rs. search_products_semantic e dist ex ps pes qt c l off = Inr rs"
proof (cases "l = Some 0 \<or> ex (from_where c ps pes) = []")
  case True
  with assms(1) show ?thesis by (auto simp: search_products_semantic_def)
next
  case False
  have st: "set (ex (from_where c ps pes)) = set (from_where c ps pes)"
    using perm by (rule mset_eq_setD)
  from False have "from_where c ps pes \<noteq> []"
    using perm [of "from_where c ps pes"] by auto
  with False assms(2) have q: "e qt = Inr q"
    and d: "\<forall>ppe \<in> set (from_where c ps pes).
            \<exists>d. distance_op dist (pe_combined_embedding (snd ppe)) q = Inr d"
    by auto
  from d st with_distances_returns [of "ex (from_where c ps pes)" dist q]
  obtain keyed where "with_distances dist q (ex (from_where c ps pes)) = Inr keyed"
    by auto
  with assms(1) q False show ?thesis by (simp add: search_products_semantic_def)
qed

lemma in_set_limit_offset: "x \<in> set (limit_offset l off xs) \<Longrightarrow> x \<in> set xs"
  by (auto simp: limit_offset_def split: option.splits dest: in_set_takeD in_set_dropD)

lemma sorted_wrt_limit_offset: "sorted_wrt P xs \<Longrightarrow> sorted_wrt P (limit_offset l off xs)"
  by (auto simp: limit_offset_def split: option.splits intro: sorted_wrt_take sorted_wrt_drop)

lemma limit_offset_unpaged: "limit_offset None None xs = xs"
  by (simp add: limit_offset_def)

text \<open>
  Claim C1, as the function has it. The order of rows at equal distance is the
  executor's choice; whatever it is, a call with a limit and an offset that are not
  negative returns when it has nothing to rank, or when the provider embeds the
  query text and the distance operator accepts every stored vector. A call that
  returns has ranked exactly the joined rows of active products (in the category,
  under a filter), in ascending order of the distance between the stored combined
  embedding and the embedding of the query text, the rows that have none last, and
  has returned the page that offset and limit cut out of that ranking. So every
  returned row is an active product with a row in \<^verbatim>\<open>product_embeddings\<close>, a
  product with no such row is never returned, and a product whose row stores a
  \<^verbatim>\<open>NULL\<close> combined embedding is ranked, without a similarity: the unpaginated
  call returns it.
\<close>

theorem search_products_semantic_result:
  assumes "\<And>rows. mset (executor rows) = mset rows"
  shows
    "(check_limit_offset limit_results offset_results = None \<and>
      (limit_results = Some 0 \<or> from_where category_filter ps pes = [] \<or>
       openai_embed_text query_text = Inr q \<and>
       (\<forall>ppe \<in> set (from_where category_filter ps pes).
          \<exists>d. distance_op dist (pe_combined_embedding (snd ppe)) q = Inr d)) \<longrightarrow>
      (\<exists>rs. search_products_semantic openai_embed_text dist executor ps pes query_text
               category_filter limit_results offset_results = Inr rs)) \<and>
     (\<forall>rs. search_products_semantic openai_embed_text dist executor ps pes query_text
             category_filter limit_results offset_results = Inr rs \<longrightarrow>
        (\<exists>keyed.
           mset (map snd keyed) = mset (from_where category_filter ps pes) \<and>
           sorted_wrt (\<lambda>a b. nulls_last_le (fst a) (fst b)) keyed \<and>
           rs = map select_row (limit_offset limit_results offset_results keyed) \<and>
           (limit_results \<noteq> Some 0 \<longrightarrow>
              (\<forall>k \<in> set keyed. \<exists>q. openai_embed_text query_text = Inr q \<and>
                 distance_op dist (pe_combined_embedding (snd (snd k))) q = Inr (fst k)))) \<and>
        (\<forall>r \<in> set rs. \<exists>p \<in> set ps. \<exists>pe \<in> set pes.
           pe_product_id pe = p_id p \<and> r_product_id r = p_id p \<and>
           p_is_active p = Some True \<and>
           (\<forall>cat. category_filter = Some cat \<longrightarrow> p_category_id p = Some cat) \<and>
           (\<exists>q. openai_embed_text query_text = Inr q \<and>
                distance_op dist (pe_combined_embedding pe) q = Inr (r_similarity r))) \<and>
        sorted_wrt (\<lambda>a b. nulls_last_le (r_similarity a) (r_similarity b)) rs \<and>
        (limit_results = None \<and> offset_results = None \<longrightarrow>
           (\<forall>p \<in> set ps. \<forall>pe \<in> set pes.
              pe_product_id pe = p_id p \<and> search_where category_filter p \<longrightarrow>
              (\<exists>r \<in> set rs. r_product_id r = p_id p \<and>
                 (pe_combined_embedding pe = None \<longrightarrow> r_similarity r = None)))))"
proof (intro conjI allI impI)
  assume "check_limit_offset limit_results offset_results = None \<and>
      (limit_results = Some 0 \<or> from_where category_filter ps pes = [] \<or>
       openai_embed_text query_text = Inr q \<and>
       (\<forall>ppe \<in> set (from_where category_filter ps pes).
          \<exists>d. distance_op dist (pe_combined_embedding (snd ppe)) q = Inr d))"
  then show "\<exists>rs. search_products_semantic openai_embed_text dist executor ps pes query_text
               category_filter limit_results offset_results = Inr rs"
    using search_returns [of limit_results offset_results category_filter ps pes
        openai_embed_text query_text q dist executor] assms by blast
next
  fix rs
  assume run: "search_products_semantic openai_embed_text dist executor ps pes query_text
             category_filter limit_results offset_results = Inr rs"
  from search_ranking [OF assms run] obtain keyed where
    m: "mset (map snd keyed) = mset (from_where category_filter ps pes)"
    and s: "sorted_wrt (\<lambda>a b. nulls_last_le (fst a) (fst b)) keyed"
    and rs: "rs = map select_row (limit_offset limit_results offset_results keyed)"
    and d: "limit_results \<noteq> Some 0 \<longrightarrow>
              (\<forall>k \<in> set keyed. \<exists>q. openai_embed_text query_text = Inr q \<and>
                 distance_op dist (pe_combined_embedding (snd (snd k))) q = Inr (fst k))"
    by blast
  from m d s rs show "\<exists>keyed.
           mset (map snd keyed) = mset (from_where category_filter ps pes) \<and>
           sorted_wrt (\<lambda>a b. nulls_last_le (fst a) (fst b)) keyed \<and>
           rs = map select_row (limit_offset limit_results offset_results keyed) \<and>
           (limit_results \<noteq> Some 0 \<longrightarrow>
              (\<forall>k \<in> set keyed. \<exists>q. openai_embed_text query_text = Inr q \<and>
                 distance_op dist (pe_combined_embedding (snd (snd k))) q = Inr (fst k)))"
    by blast
  have st: "snd ` set keyed = set (from_where category_filter ps pes)"
    using mset_eq_setD [OF m] by simp
  show "\<forall>r \<in> set rs. \<exists>p \<in> set ps. \<exists>pe \<in> set pes.
           pe_product_id pe = p_id p \<and> r_product_id r = p_id p \<and>
           p_is_active p = Some True \<and>
           (\<forall>cat. category_filter = Some cat \<longrightarrow> p_category_id p = Some cat) \<and>
           (\<exists>q. openai_embed_text query_text = Inr q \<and>
                distance_op dist (pe_combined_embedding pe) q = Inr (r_similarity r))"
  proof
    fix r assume r_in: "r \<in> set rs"
    then have "limit_results \<noteq> Some 0" unfolding rs by (auto simp: limit_offset_zero)
    with d have d': "\<forall>k \<in> set keyed. \<exists>q. openai_embed_text query_text = Inr q \<and>
                 distance_op dist (pe_combined_embedding (snd (snd k))) q = Inr (fst k)"
      by blast
    from r_in obtain k where k: "k \<in> set keyed" and r: "r = select_row k"
      unfolding rs by (auto dest: in_set_limit_offset)
    obtain dd p pe where [simp]: "k = (dd, p, pe)" by (cases k)
    from k st have "(p, pe) \<in> set (from_where category_filter ps pes)" by force
    then have "p \<in> set ps" "pe \<in> set pes" "p_id p = pe_product_id pe"
      "search_where category_filter p"
      by (auto simp: set_from_where)
    moreover from d' k have "\<exists>q. openai_embed_text query_text = Inr q \<and>
        distance_op dist (pe_combined_embedding pe) q = Inr dd" by force
    ultimately show "\<exists>p \<in> set ps. \<exists>pe \<in> set pes.
           pe_product_id pe = p_id p \<and> r_product_id r = p_id p \<and>
           p_is_active p = Some True \<and>
           (\<forall>cat. category_filter = Some cat \<longrightarrow> p_category_id p = Some cat) \<and>
           (\<exists>q. openai_embed_text query_text = Inr q \<and>
                distance_op dist (pe_combined_embedding pe) q = Inr (r_similarity r))"
      using r
      by (intro bexI [of _ p] bexI [of _ pe]) (auto simp: select_row_def search_where_def)
  qed
  show "sorted_wrt (\<lambda>a b. nulls_last_le (r_similarity a) (r_similarity b)) rs"
    unfolding rs sorted_wrt_map
    using sorted_wrt_limit_offset [OF s, of limit_results offset_results]
    by (simp add: select_row_def)
  assume unpaged: "limit_results = None \<and> offset_results = None"
  then have all: "rs = map select_row keyed" unfolding rs by (simp add: limit_offset_unpaged)
  from unpaged d have d': "\<forall>k \<in> set keyed. \<exists>q. openai_embed_text query_text = Inr q \<and>
                 distance_op dist (pe_combined_embedding (snd (snd k))) q = Inr (fst k)"
    by simp
  show "\<forall>p \<in> set ps. \<forall>pe \<in> set pes.
              pe_product_id pe = p_id p \<and> search_where category_filter p \<longrightarrow>
              (\<exists>r \<in> set rs. r_product_id r = p_id p \<and>
                 (pe_combined_embedding pe = None \<longrightarrow> r_similarity r = None))"
  proof (intro ballI impI)
    fix p pe assume "p \<in> set ps" "pe \<in> set pes"
      "pe_product_id pe = p_id p \<and> search_where category_filter p"
    then have "(p, pe) \<in> set (from_where category_filter ps pes)"
      by (simp add: set_from_where)
    with st obtain k where k: "k \<in> set keyed" and sk: "snd k = (p, pe)" by force
    from d' k sk obtain q where
      dk: "distance_op dist (pe_combined_embedding pe) q = Inr (fst k)" by force
    have 1: "select_row k \<in> set rs" unfolding all using k by simp
    have 2: "r_product_id (select_row k) = p_id p" using sk by (simp add: select_row_def)
    have 3: "r_similarity (select_row k) = None" if "pe_combined_embedding pe = None"
      using dk that by (simp add: select_row_def distance_op_def)
    show "\<exists>r \<in> set rs. r_product_id r = p_id p \<and>
                 (pe_combined_embedding pe = None \<longrightarrow> r_similarity r = None)"
      by (rule bexI [OF _ 1]) (simp add: 2 3)
  qed
qed

lemma example_from_where:
  "from_where None example_products example_embeddings =
     [(lamp, embedding_of 1 (Some 0)), (desk, embedding_of 2 (Some 5)), (rug, embedding_of 5 None)]"
  by (simp add: from_where_def join_embeddings_def search_where_def
      example_products_def example_embeddings_def
      lamp_def desk_def chair_def shelf_def rug_def embedding_of_def)

lemma example_keyed:
  "with_distances example_dist (Some 4)
     [(lamp, embedding_of 1 (Some 0)), (desk, embedding_of 2 (Some 5)), (rug, embedding_of 5 None)] =
   Inr [(Some 4, lamp, embedding_of 1 (Some 0)), (Some 1, desk, embedding_of 2 (Some 5)),
        (None, rug, embedding_of 5 None)]"
  by (simp add: distance_op_def example_dist_def embedding_of_def)

lemma example_ranking:
  "order_by fst [(Some (4::int), lamp, embedding_of 1 (Some 0)),
                 (Some 1, desk, embedding_of 2 (Some 5)), (None, rug, embedding_of 5 None)] =
     [(Some 1, desk, embedding_of 2 (Some 5)), (Some 4, lamp, embedding_of 1 (Some 0)),
      (None, rug, embedding_of 5 None)]"
  by simp

lemma example_search_ranked:
  assumes "0 < l" and "0 \<le> off"
  shows "search_products_semantic example_embed example_dist (\<lambda>rows. rows)
     example_products example_embeddings query_text None (Some l) (Some off) =
   Inr (map select_row (limit_offset (Some l) (Some off)
     [(Some 1, desk, embedding_of 2 (Some 5)), (Some 4, lamp, embedding_of 1 (Some 0)),
      (None, rug, embedding_of 5 None)]))"
proof -
  have 1: "check_limit_offset (Some l) (Some off) = None"
    using assms by (simp add: check_limit_offset_def)
  have 2: "example_embed query_text = Inr (Some 4)"
    by (simp add: example_embed_def)
  have 3: "\<not> (Some l = Some 0 \<or>
             [(lamp, embedding_of 1 (Some 0)), (desk, embedding_of 2 (Some 5)),
              (rug, embedding_of 5 None)] = [])"
    using assms by simp
  show ?thesis
    unfolding search_products_semantic_def Let_def
    by (simp only: 1 2 3 example_from_where example_keyed example_ranking option.case
        sum.case if_False)
qed

lemma example_search:
  "search_products_semantic example_embed example_dist (\<lambda>rows. rows)
     example_products example_embeddings ''reading light'' None (Some 2) (Some 0) =
   Inr [\<lparr> r_product_id = 2, r_title = ''desk'', r_description = None, r_price = 12000,
           r_seller_id = 100, r_similarity = Some 1 \<rparr>,
        \<lparr> r_product_id = 1, r_title = ''lamp'', r_description = Some ''brass reading lamp'',
           r_price = 4500, r_seller_id = 100, r_similarity = Some 4 \<rparr>]"
  by (simp add: example_search_ranked limit_offset_def select_row_def lamp_def desk_def)

text \<open>
  On the example catalogue, the first page of two: the desk (distance 1) before the
  lamp (distance 4); the inactive chair and the shelf without an embedding row are
  absent.
\<close>

theorem search_products_semantic_result_witness:
  "search_products_semantic example_embed example_dist (\<lambda>rows. rows)
     example_products example_embeddings ''reading light'' None (Some 2) (Some 0) =
   Inr [\<lparr> r_product_id = 2, r_title = ''desk'', r_description = None, r_price = 12000,
           r_seller_id = 100, r_similarity = Some 1 \<rparr>,
        \<lparr> r_product_id = 1, r_title = ''lamp'', r_description = Some ''brass reading lamp'',
           r_price = 4500, r_seller_id = 100, r_similarity = Some 4 \<rparr>] \<and>
   sorted_wrt (\<lambda>a b. nulls_last_le (r_similarity a) (r_similarity b))
     [\<lparr> r_product_id = 2, r_title = ''desk'', r_description = None, r_price = 12000,
        r_seller_id = 100, r_similarity = Some (1::int) \<rparr>,
      \<lparr> r_product_id = 1, r_title = ''lamp'', r_description = Some ''brass reading lamp'',
        r_price = 4500, r_seller_id = 100, r_similarity = Some 4 \<rparr>]"
proof -
  have "mset ((\<lambda>rows. rows) rows) = mset rows"
    for rows :: "(products_row \<times> int product_embeddings_row) list"
    by simp
  note t = search_products_semantic_result [of "\<lambda>rows. rows", OF this,
      of "Some 2" "Some 0" None example_products example_embeddings example_embed
         "''reading light''" "Some 4" example_dist,
      THEN conjunct2, rule_format, OF example_search, THEN conjunct2, THEN conjunct2,
      THEN conjunct1]
  from t example_search show ?thesis by (rule conjI [rotated])
qed

text \<open>
  The claim as stated excludes every product without a stored combined embedding.
  The rug's embedding row stores none, and the rug is returned, last and with no
  similarity.
\<close>

theorem search_returns_null_embedding:
  "search_products_semantic example_embed example_dist (\<lambda>rows. rows)
     example_products example_embeddings ''reading light'' None (Some 10) (Some 0) =
   Inr [\<lparr> r_product_id = 2, r_title = ''desk'', r_description = None, r_price = 12000,
           r_seller_id = 100, r_similarity = Some 1 \<rparr>,
        \<lparr> r_product_id = 1, r_title = ''lamp'', r_description = Some ''brass reading lamp'',
           r_price = 4500, r_seller_id = 100, r_similarity = Some 4 \<rparr>,
        \<lparr> r_product_id = 5, r_title = ''rug'', r_description = None, r_price = 9900,
           r_seller_id = 101, r_similarity = None \<rparr>] \<and>
   map pe_combined_embedding (filter (\<lambda>pe. pe_product_id pe = 5) example_embeddings) = [None]"
proof
  show "search_products_semantic example_embed example_dist (\<lambda>rows. rows)
     example_products example_embeddings ''reading light'' None (Some 10) (Some 0) =
   Inr [\<lparr> r_product_id = 2, r_title = ''desk'', r_description = None, r_price = 12000,
           r_seller_id = 100, r_similarity = Some 1 \<rparr>,
        \<lparr> r_product_id = 1, r_title = ''lamp'', r_description = Some ''brass reading lamp'',
           r_price = 4500, r_seller_id = 100, r_similarity = Some 4 \<rparr>,
        \<lparr> r_product_id = 5, r_title = ''rug'', r_description = None, r_price = 9900,
           r_seller_id = 101, r_similarity = None \<rparr>]"
    by (simp add: example_search_ranked limit_offset_def select_row_def
        lamp_def desk_def rug_def)
  show "map pe_combined_embedding (filter (\<lambda>pe. pe_product_id pe = 5) example_embeddings) = [None]"
    by (simp add: example_embeddings_def embedding_of_def)
qed

section \<open>Listing and search: which products are left out\<close>

lemma soft_deleted_not_returned:
  assumes perm: "\<And>rows. mset (ex rows) = mset rows"
    and run: "search_products_semantic e dist ex ps pes qt c l off = Inr rs"
    and p: "p \<in> set ps" and gone: "soft_deleted p"
    and pk: "distinct (map p_id ps)"
  shows "p_id p \<notin> r_product_id ` set rs"
proof
  assume "p_id p \<in> r_product_id ` set rs"
  then obtain r where r: "r \<in> set rs" and pid: "r_product_id r = p_id p" by auto
  from search_ranking [OF perm run] obtain keyed where
    m: "mset (map snd keyed) = mset (from_where c ps pes)"
    and rs: "rs = map select_row (limit_offset l off keyed)"
    by blast
  from r obtain k where k: "k \<in> set keyed" and sel: "r = select_row k"
    unfolding rs by (auto dest: in_set_limit_offset)
  have "snd ` set keyed = set (from_where c ps pes)"
    using mset_eq_setD [OF m] by simp
  with k have "snd k \<in> set (from_where c ps pes)" by blast
  then have p': "fst (snd k) \<in> set ps" and act: "search_where c (fst (snd k))"
    by (auto simp: set_from_where)
  from sel pid have "p_id (fst (snd k)) = p_id p" by (simp add: select_row_def)
  with p p' pk have "fst (snd k) = p" by (simp add: distinct_map inj_on_def)
  with act gone show False by (simp add: search_where_def soft_deleted_def)
qed

lemma not_soft_deleted_returned:
  assumes perm: "\<And>rows. mset (ex rows) = mset rows"
    and run: "search_products_semantic e dist ex ps pes qt None None None = Inr rs"
    and p: "p \<in> set ps" and pe: "pe \<in> set pes" and j: "pe_product_id pe = p_id p"
    and kept: "\<not> soft_deleted p"
  shows "p_id p \<in> r_product_id ` set rs"
proof -
  from search_ranking [OF perm run] obtain keyed where
    m: "mset (map snd keyed) = mset (from_where None ps pes)"
    and rs: "rs = map select_row keyed"
    by (auto simp: limit_offset_unpaged)
  have st: "snd ` set keyed = set (from_where None ps pes)"
    using mset_eq_setD [OF m] by simp
  from p pe j kept have "(p, pe) \<in> set (from_where None ps pes)"
    by (simp add: set_from_where search_where_def soft_deleted_def)
  with st obtain k where k: "k \<in> set keyed" and sk: "snd k = (p, pe)" by force
  have "r_product_id (select_row k) = p_id p" using sk by (simp add: select_row_def)
  moreover have "select_row k \<in> set rs" unfolding rs using k by simp
  ultimately show ?thesis by force
qed

lemma set_list_products:
  "set (list_products filters order_key l off ps) \<subseteq> {p \<in> set ps. \<not> soft_deleted p \<and> filters p}"
  by (auto simp: list_products_def set_order_by dest!: in_set_limit_offset)

lemma set_list_products_all:
  "set (list_products (\<lambda>p. True) order_key None None ps) = {p \<in> set ps. \<not> soft_deleted p}"
  by (auto simp: list_products_def set_order_by limit_offset_unpaged)

lemma set_keywordSearch:
  "set (keywordSearch matches score query filters ps) =
     {p \<in> set ps. \<not> soft_deleted p \<and> filters p \<and> matches query p}"
  by (auto simp: keywordSearch_def set_order_by)

lemma absent_by_id:
  assumes "distinct (map p_id ps)" and "p \<in> set ps" and "soft_deleted p"
    and "set result \<subseteq> {p \<in> set ps. \<not> soft_deleted p \<and> P p}"
  shows "p_id p \<notin> p_id ` set result"
proof
  assume "p_id p \<in> p_id ` set result"
  then obtain p' where p': "p' \<in> set result" and pid: "p_id p' = p_id p" by auto
  from p' assms(4) have "p' \<in> set ps" "\<not> soft_deleted p'" by auto
  with assms(1,2) pid have "p' = p" by (simp add: distinct_map inj_on_def)
  with \<open>\<not> soft_deleted p'\<close> assms(3) show False by simp
qed

text \<open>
  Claim C5. With \<^verbatim>\<open>products.id\<close> a key, a soft-deleted product is in no result
  of the semantic search, of a listing or of a keyword search, whatever the
  arguments. The exclusion is exact: the \<^verbatim>\<open>WHERE\<close> clause of the semantic search
  without a category filter holds of a product if and only if it is not
  soft-deleted; among the products that have an embedding row, the unfiltered and
  unpaginated semantic search returns those that are not soft-deleted and no others,
  and so do the unfiltered listing and the keyword search that every product
  matches, among all products. (The semantic search may also end in an exception;
  these are its returning calls.)
\<close>

theorem soft_deleted_excluded:
  assumes "\<And>rows. mset (executor rows) = mset rows" and "distinct (map p_id ps)"
  shows
    "(\<forall>rs. search_products_semantic openai_embed_text dist executor ps pes query_text
             category_filter limit_results offset_results = Inr rs \<longrightarrow>
        (\<forall>p \<in> set ps. soft_deleted p \<longrightarrow> p_id p \<notin> r_product_id ` set rs)) \<and>
     (\<forall>p \<in> set ps. soft_deleted p \<longrightarrow>
        p_id p \<notin> p_id ` set (list_products filters order_key limit_results offset_results ps) \<and>
        p_id p \<notin> p_id ` set (keywordSearch matches score query filters ps)) \<and>
     (\<forall>p. search_where None p \<longleftrightarrow> \<not> soft_deleted p) \<and>
     (\<forall>all. search_products_semantic openai_embed_text dist executor ps pes query_text
              None None None = Inr all \<longrightarrow>
        (\<forall>p \<in> set ps. (\<exists>pe \<in> set pes. pe_product_id pe = p_id p) \<longrightarrow>
           (p_id p \<in> r_product_id ` set all \<longleftrightarrow> \<not> soft_deleted p))) \<and>
     (\<forall>p \<in> set ps.
        (p \<in> set (list_products (\<lambda>p. True) order_key None None ps) \<longleftrightarrow> \<not> soft_deleted p) \<and>
        (p \<in> set (keywordSearch (\<lambda>query p. True) score query (\<lambda>p. True) ps) \<longleftrightarrow>
           \<not> soft_deleted p))"
proof (intro conjI allI impI ballI)
  fix rs p
  assume "search_products_semantic openai_embed_text dist executor ps pes query_text
             category_filter limit_results offset_results = Inr rs"
    and "p \<in> set ps" and "soft_deleted p"
  then show "p_id p \<notin> r_product_id ` set rs"
    using soft_deleted_not_returned [OF assms(1) _ _ _ assms(2)] by blast
next
  fix p assume p: "p \<in> set ps" "soft_deleted p"
  show "p_id p \<notin> p_id ` set (list_products filters order_key limit_results offset_results ps)"
    by (rule absent_by_id [OF assms(2) p set_list_products])
  show "p_id p \<notin> p_id ` set (keywordSearch matches score query filters ps)"
    by (rule absent_by_id [OF assms(2) p, of _ "\<lambda>p. filters p \<and> matches query p"])
      (simp add: set_keywordSearch)
next
  fix p show "search_where None p \<longleftrightarrow> \<not> soft_deleted p"
    by (simp add: search_where_def soft_deleted_def)
next
  fix all p
  assume run: "search_products_semantic openai_embed_text dist executor ps pes query_text
              None None None = Inr all"
    and p: "p \<in> set ps" and pe: "\<exists>pe \<in> set pes. pe_product_id pe = p_id p"
  show "p_id p \<in> r_product_id ` set all \<longleftrightarrow> \<not> soft_deleted p"
    using soft_deleted_not_returned [OF assms(1) run p _ assms(2)]
      not_soft_deleted_returned [OF assms(1) run p] pe
    by blast
next
  fix p assume "p \<in> set ps"
  then show "p \<in> set (list_products (\<lambda>p. True) order_key None None ps) \<longleftrightarrow> \<not> soft_deleted p"
    by (simp add: set_list_products_all)
next
  fix p assume "p \<in> set ps"
  then show "p \<in> set (keywordSearch (\<lambda>query p. True) score query (\<lambda>p. True) ps) \<longleftrightarrow>
           \<not> soft_deleted p"
    by (simp add: set_keywordSearch)
qed

lemma example_products_distinct: "distinct (map p_id example_products)"
  by (simp add: example_products_def lamp_def desk_def chair_def shelf_def rug_def)

text \<open>
  On the example catalogue the chair is soft-deleted. It is absent from the first
  page of the semantic search, from the listing by price and from the keyword search
  for the products of seller 101.
\<close>

theorem soft_deleted_excluded_witness:
  "distinct (map p_id example_products) \<and>
   chair \<in> set example_products \<and> soft_deleted chair \<and>
   p_id chair \<notin> r_product_id `
     set [\<lparr> r_product_id = 2, r_title = ''desk'', r_description = None, r_price = 12000,
             r_seller_id = 100, r_similarity = Some (1::int) \<rparr>,
          \<lparr> r_product_id = 1, r_title = ''lamp'', r_description = Some ''brass reading lamp'',
             r_price = 4500, r_seller_id = 100, r_similarity = Some 4 \<rparr>] \<and>
   p_id chair \<notin> p_id ` set (list_products (\<lambda>p. True) (\<lambda>p. Some (p_price p))
                               (Some 2) (Some 0) example_products) \<and>
   p_id chair \<notin> p_id ` set (keywordSearch (\<lambda>query p. p_seller_id p = 101)
                               (\<lambda>query p. Some (p_price p)) ''chair'' (\<lambda>p. True)
                               example_products)"
proof -
  have c: "chair \<in> set example_products" "soft_deleted chair"
    by (simp_all add: example_products_def chair_def soft_deleted_def)
  have perm: "mset ((\<lambda>rows. rows) rows) = mset rows"
    for rows :: "(products_row \<times> int product_embeddings_row) list"
    by simp
  note t = soft_deleted_excluded [of "\<lambda>rows. rows" example_products, OF perm
      example_products_distinct,
      of example_embed example_dist example_embeddings "''reading light''" None
         "Some 2" "Some 0" "\<lambda>p. True" "\<lambda>p. Some (p_price p)"
         "\<lambda>query p. p_seller_id p = 101" "\<lambda>query p. Some (p_price p)" "''chair''"]
  note s = t [THEN conjunct1, rule_format, OF example_search c]
  note l = t [THEN conjunct2, THEN conjunct1, rule_format, OF c]
  from example_products_distinct c s l show ?thesis by simp
qed

section \<open>Registration: uniqueness of email and username\<close>

lemma insert_users_Inr:
  assumes "insert_users new rows = Inr rows'"
  shows "\<exists>row. users_coerce new = Inr row \<and> rows' = rows @ [row] \<and>
           u_id row \<notin> set (map u_id rows) \<and> u_email row \<notin> set (map u_email rows) \<and>
           u_username row \<notin> set (map u_username rows)"
  using assms unfolding insert_users_def
  by (cases "users_coerce new") (auto split: if_splits)

lemma insert_users_keeps_unique:
  assumes "insert_users new rows = Inr rows'" and "users_unique rows"
  shows "users_unique rows'"
  using insert_users_Inr [OF assms(1)] assms(2) by (auto simp: users_unique_def)

lemma varchar_fits: "utf8_length s \<le> n \<Longrightarrow> varchar n s = Inr s"
  by (simp add: varchar_def)

lemma users_coerce_fits:
  assumes "users_coerce new = Inr row"
    and "utf8_length (u_email new) \<le> 255" and "utf8_length (u_username new) \<le> 100"
  shows "u_email row = u_email new \<and> u_username row = u_username new"
  using assms unfolding users_coerce_def
  by (auto simp: varchar_fits split: sum.splits)

lemma register_Inr:
  assumes "register weak hash new_id now email username password rows = (Inr user, rows')"
  shows "\<not> list_ex (\<lambda>u. spec_equal_ignoring_case (u_email u) email) rows \<and>
         \<not> list_ex (\<lambda>u. spec_equal_ignoring_case (u_username u) username) rows \<and>
         \<not> weak password \<and>
         (\<exists>row. users_coerce
                   \<lparr> u_id = new_id, u_email = email, u_username = username,
                     u_password_hash = hash password, u_full_name = None,
                     u_avatar_url = None, u_phone = None,
                     u_verification_level = Some ''basic'',
                     u_updated_at = Some now, u_is_active = Some True \<rparr> = Inr row \<and>
                 rows' = rows @ [row] \<and> user = row)"
proof -
  let ?new = "\<lparr> u_id = new_id, u_email = email, u_username = username,
                 u_password_hash = hash password, u_full_name = None,
                 u_avatar_url = None, u_phone = None,
                 u_verification_level = Some ''basic'',
                 u_updated_at = Some now, u_is_active = Some True \<rparr>"
  from assms have c: "\<not> list_ex (\<lambda>u. spec_equal_ignoring_case (u_email u) email) rows"
    "\<not> list_ex (\<lambda>u. spec_equal_ignoring_case (u_username u) username) rows"
    "\<not> weak password"
    and i: "insert_users ?new rows = Inr rows'" and u: "user = last rows'"
    unfolding register_def by (auto split: if_splits sum.splits)
  from insert_users_Inr [OF i] u c show ?thesis by auto
qed

lemma register_stores:
  assumes "register weak hash new_id now email username password rows = (Inr user, rows')"
    and "utf8_length email \<le> 255" and "utf8_length username \<le> 100"
  shows "rows' = rows @ [user] \<and> u_email user = email \<and> u_username user = username"
proof -
  from register_Inr [OF assms(1)] obtain row where
    c: "users_coerce
          \<lparr> u_id = new_id, u_email = email, u_username = username,
            u_password_hash = hash password, u_full_name = None,
            u_avatar_url = None, u_phone = None,
            u_verification_level = Some ''basic'',
            u_updated_at = Some now, u_is_active = Some True \<rparr> = Inr row"
    and r: "rows' = rows @ [row]" "user = row"
    by blast
  from users_coerce_fits [OF c] assms(2,3) r show ?thesis by simp
qed

lemma register_failed_unchanged:
  "fst (register weak hash new_id now email username password rows) = Inl e \<Longrightarrow>
   snd (register weak hash new_id now email username password rows) = rows"
  unfolding register_def by (auto split: if_splits sum.splits)

text \<open>
  Claim C4. A valid registration is one that is stored and whose email and username
  are within the lengths of their columns. From then on, for as long as its row is
  in the table, a registration whose email is the same up to letter case fails with
  \<^verbatim>\<open>DuplicateEmail\<close>, a \<^verbatim>\<open>Conflict\<close>, whatever its username, its password
  and the rest, and one whose username is the same up to letter case fails with a
  \<^verbatim>\<open>Conflict\<close> as well; the table after the failed call is the table before
  it. And the valid registration keeps emails and usernames pairwise different up
  to letter case.
\<close>

theorem second_registration_rejected:
  assumes "register weak_password hash_password new_id now email username password rows =
             (Inr user, stored)"
    and "utf8_length email \<le> 255" and "utf8_length username \<le> 100"
  shows
    "user \<in> set stored \<and>
     (\<forall>later. user \<in> set later \<and> spec_equal_ignoring_case other_email email \<longrightarrow>
        register weak_password hash_password other_id later_time other_email other_username
          other_password later = (Inl DuplicateEmail, later) \<and>
        kind_of DuplicateEmail = Conflict) \<and>
     (\<forall>later. user \<in> set later \<and> spec_equal_ignoring_case other_username username \<longrightarrow>
        (\<exists>e. register weak_password hash_password other_id later_time other_email
               other_username other_password later = (Inl e, later) \<and>
             kind_of e = Conflict)) \<and>
     (users_unique_ignoring_case rows \<longrightarrow> users_unique_ignoring_case stored)"
proof (intro conjI impI allI)
  note s = register_stores [OF assms]
  note c = register_Inr [OF assms(1)]
  show "user \<in> set stored" using s by simp
  {
    fix later
    assume "user \<in> set later \<and> spec_equal_ignoring_case other_email email"
    with s have "list_ex (\<lambda>u. spec_equal_ignoring_case (u_email u) other_email) later"
      by (auto simp: list_ex_iff spec_equal_ignoring_case_def)
    then show "register weak_password hash_password other_id later_time other_email
          other_username other_password later = (Inl DuplicateEmail, later)"
      by (simp add: register_def)
    show "kind_of DuplicateEmail = Conflict" by simp
  }
  {
    fix later
    assume "user \<in> set later \<and> spec_equal_ignoring_case other_username username"
    with s have u: "list_ex (\<lambda>u. spec_equal_ignoring_case (u_username u) other_username) later"
      by (auto simp: list_ex_iff spec_equal_ignoring_case_def)
    show "\<exists>e. register weak_password hash_password other_id later_time other_email
               other_username other_password later = (Inl e, later) \<and> kind_of e = Conflict"
    proof (cases "list_ex (\<lambda>u. spec_equal_ignoring_case (u_email u) other_email) later")
      case True
      then have "register weak_password hash_password other_id later_time other_email
               other_username other_password later = (Inl DuplicateEmail, later)"
        by (simp add: register_def)
      then show ?thesis by simp
    next
      case False
      with u have "register weak_password hash_password other_id later_time other_email
               other_username other_password later = (Inl DuplicateUsername, later)"
        by (simp add: register_def)
      then show ?thesis by simp
    qed
  }
  {
    assume "users_unique_ignoring_case rows"
    with s c show "users_unique_ignoring_case stored"
      by (auto simp: users_unique_ignoring_case_def list_ex_iff spec_equal_ignoring_case_def)
  }
qed

lemma register_alice:
  "register example_weak example_hash 100 1000 ''alice@example.com'' ''alice'' ''password'' [] =
     (Inr (alice\<lparr> u_full_name := None \<rparr>), [alice\<lparr> u_full_name := None \<rparr>])"
  by (simp add: register_def example_weak_def example_hash_def insert_users_def
      users_coerce_def varchar_null_def varchar_def utf8_length_def utf8_continuation_def
      alice_def)

text \<open>
  Alice registers; a second registration with her email in other letter case, under
  the username bob, is refused as a duplicate email and the table still holds her
  row alone.
\<close>

theorem second_registration_rejected_witness:
  "register example_weak example_hash 100 1000 ''alice@example.com'' ''alice'' ''password'' [] =
     (Inr (alice\<lparr> u_full_name := None \<rparr>), [alice\<lparr> u_full_name := None \<rparr>]) \<and>
   utf8_length ''alice@example.com'' \<le> 255 \<and> utf8_length ''alice'' \<le> 100 \<and>
   spec_equal_ignoring_case ''Alice@Example.COM'' ''alice@example.com'' \<and>
   register example_weak example_hash 101 2000 ''Alice@Example.COM'' ''bob'' ''12345678''
       [alice\<lparr> u_full_name := None \<rparr>] =
     (Inl DuplicateEmail, [alice\<lparr> u_full_name := None \<rparr>])"
proof -
  have l: "utf8_length ''alice@example.com'' \<le> 255" "utf8_length ''alice'' \<le> 100"
    by (simp_all add: utf8_length_def utf8_continuation_def)
  have e: "spec_equal_ignoring_case ''Alice@Example.COM'' ''alice@example.com''"
    by (simp add: spec_equal_ignoring_case_def lower_ascii_def)
  note t = second_registration_rejected [OF register_alice l,
      where other_email = "''Alice@Example.COM''" and other_id = 101 and later_time = 2000
        and other_username = "''bob''" and other_password = "''12345678''"]
  note m = t [THEN conjunct1]
  note r = t [THEN conjunct2, THEN conjunct1, THEN spec, THEN mp, OF conjI, OF m e,
      THEN conjunct1]
  from register_alice l e r show ?thesis by (intro conjI)
qed

section \<open>Deleting a product\<close>

lemma delete_products_Inr:
  assumes "delete_products pid db = Inr db'" and "list_ex (\<lambda>p. p_id p = pid) (products db)"
  shows "db' = db\<lparr> products := filter (\<lambda>p. p_id p \<noteq> pid) (products db),
                   product_embeddings :=
                       filter (\<lambda>pe. pe_product_id pe \<noteq> pid) (product_embeddings db),
                   reviews := filter (\<lambda>r. rv_product_id r \<noteq> pid) (reviews db),
                   wishlist := filter (\<lambda>w. wl_product_id w \<noteq> pid) (wishlist db) \<rparr>"
  using assms unfolding delete_products_def by (simp split: if_splits)

text \<open>
  Claim C8. Deleting a product row that exists, when the statement completes, leaves
  \<^verbatim>\<open>product_embeddings\<close> with exactly its rows for other products (so none for the
  deleted one), and leaves no product row with that id; and the statement does
  complete whenever no order item and no cart row points at the product.
\<close>

theorem delete_products_cascades_to_embeddings:
  assumes "p \<in> set (products db)"
  shows "(\<forall>db'. delete_products (p_id p) db = Inr db' \<longrightarrow>
            product_embeddings db' =
              filter (\<lambda>pe. pe_product_id pe \<noteq> p_id p) (product_embeddings db) \<and>
            (\<forall>pe \<in> set (product_embeddings db'). pe_product_id pe \<noteq> p_id p) \<and>
            (\<forall>q \<in> set (products db'). p_id q \<noteq> p_id p)) \<and>
         (\<not> list_ex (\<lambda>oi. oi_product_id oi = p_id p) (order_items db) \<and>
          \<not> list_ex (\<lambda>c. ct_product_id c = p_id p) (cart db) \<longrightarrow>
            (\<exists>db'. delete_products (p_id p) db = Inr db'))"
proof (intro conjI allI impI)
  from assms have ex: "list_ex (\<lambda>q. p_id q = p_id p) (products db)"
    by (auto simp: list_ex_iff)
  {
    fix db' assume "delete_products (p_id p) db = Inr db'"
    note d = delete_products_Inr [OF this ex]
    show "product_embeddings db' =
            filter (\<lambda>pe. pe_product_id pe \<noteq> p_id p) (product_embeddings db)"
      by (simp add: d)
    show "\<forall>pe \<in> set (product_embeddings db'). pe_product_id pe \<noteq> p_id p"
      by (simp add: d)
    show "\<forall>q \<in> set (products db'). p_id q \<noteq> p_id p"
      by (simp add: d)
  }
  assume "\<not> list_ex (\<lambda>oi. oi_product_id oi = p_id p) (order_items db) \<and>
          \<not> list_ex (\<lambda>c. ct_product_id c = p_id p) (cart db)"
  then show "\<exists>db'. delete_products (p_id p) db = Inr db'"
    by (simp add: delete_products_def)
qed

lemma delete_lamp:
  "delete_products (p_id lamp) example_database =
     Inr \<lparr> users = [alice], products = [desk],
           product_embeddings = [embedding_of 2 (Some 5)],
           reviews = [],
           order_items = [\<lparr> oi_id = 400, oi_order_id = 500, oi_product_id = 2, oi_quantity = 1,
                        oi_price = 12000, oi_total_price = 12000 \<rparr>],
           cart = [], wishlist = [] \<rparr>"
  by (simp add: delete_products_def example_database_def lamp_def desk_def embedding_of_def)

text \<open>
  Deleting the lamp takes its embedding, its review and its wishlist entry with it;
  the desk, which an order item points at, cannot be deleted.
\<close>

theorem delete_products_cascades_to_embeddings_witness:
  "lamp \<in> set (products example_database) \<and>
   (\<exists>db'. delete_products (p_id lamp) example_database = Inr db' \<and>
       product_embeddings db' = [embedding_of 2 (Some 5)] \<and>
       product_embeddings db' =
         filter (\<lambda>pe. pe_product_id pe \<noteq> p_id lamp) (product_embeddings example_database)) \<and>
   delete_products (p_id desk) example_database =
     Inl (ForeignKeyViolation ''order_items_product_id_fkey'')"
proof -
  have l: "lamp \<in> set (products example_database)"
    by (simp add: example_database_def)
  have d: "delete_products (p_id desk) example_database =
     Inl (ForeignKeyViolation ''order_items_product_id_fkey'')"
    by (simp add: delete_products_def example_database_def lamp_def desk_def)
  from delete_products_cascades_to_embeddings [OF l] delete_lamp
  have "\<exists>db'. delete_products (p_id lamp) example_database = Inr db' \<and>
       product_embeddings db' =
         filter (\<lambda>pe. pe_product_id pe \<noteq> p_id lamp) (product_embeddings example_database)"
    by blast
  with delete_lamp l d show ?thesis by auto
qed

section \<open>The updated_at triggers\<close>

lemma update_statement_rows:
  assumes "update_statement before_update constraints wh st rows = Inr rows'"
  shows "rows' = map (\<lambda>old. if wh old
                               then fold (\<lambda>trigger new. trigger old new) before_update (st old)
                               else old) rows"
  using assms by (simp add: update_statement_def Let_def split: option.splits)

lemma update_statement_stamped:
  assumes run: "update_statement [update_updated_at_column set_col now] constraints wh st rows
                  = Inr rows'"
    and get_set: "\<And>t r. get_col (set_col t r) = t"
  shows "length rows' = length rows \<and>
         (\<forall>i < length rows.
            (wh (rows ! i) \<longrightarrow> get_col (rows' ! i) = Some now) \<and>
            (\<not> wh (rows ! i) \<longrightarrow> rows' ! i = rows ! i) \<and>
            (rows' ! i \<noteq> rows ! i \<longrightarrow>
               get_col (rows' ! i) = Some now \<and>
               (get_col (rows ! i) \<noteq> Some now \<longrightarrow> get_col (rows' ! i) \<noteq> get_col (rows ! i))))"
  unfolding update_statement_rows [OF run]
  by (simp add: update_updated_at_column_def get_set)

lemma update_users_stamped:
  assumes "update_users now constraints wh st rows = Inr rows'"
  shows "length rows' = length rows \<and>
         (\<forall>i < length rows.
            (wh (rows ! i) \<longrightarrow> u_updated_at (rows' ! i) = Some now) \<and>
            (\<not> wh (rows ! i) \<longrightarrow> rows' ! i = rows ! i) \<and>
            (rows' ! i \<noteq> rows ! i \<longrightarrow>
               u_updated_at (rows' ! i) = Some now \<and>
               (u_updated_at (rows ! i) \<noteq> Some now \<longrightarrow> u_updated_at (rows' ! i) \<noteq> u_updated_at (rows ! i))))"
  using assms unfolding update_users_def update_users_updated_at_def
  by (rule update_statement_stamped) simp

lemma update_products_stamped:
  assumes "update_products now constraints wh st rows = Inr rows'"
  shows "length rows' = length rows \<and>
         (\<forall>i < length rows.
            (wh (rows ! i) \<longrightarrow> p_updated_at (rows' ! i) = Some now) \<and>
            (\<not> wh (rows ! i) \<longrightarrow> rows' ! i = rows ! i) \<and>
            (rows' ! i \<noteq> rows ! i \<longrightarrow>
               p_updated_at (rows' ! i) = Some now \<and>
               (p_updated_at (rows ! i) \<noteq> Some now \<longrightarrow> p_updated_at (rows' ! i) \<noteq> p_updated_at (rows ! i))))"
  using assms unfolding update_products_def update_products_updated_at_def
  by (rule update_statement_stamped) simp

lemma update_reviews_stamped:
  assumes "update_reviews now constraints wh st rows = Inr rows'"
  shows "length rows' = length rows \<and>
         (\<forall>i < length rows.
            (wh (rows ! i) \<longrightarrow> rv_updated_at (rows' ! i) = Some now) \<and>
            (\<not> wh (rows ! i) \<longrightarrow> rows' ! i = rows ! i) \<and>
            (rows' ! i \<noteq> rows ! i \<longrightarrow>
               rv_updated_at (rows' ! i) = Some now \<and>
               (rv_updated_at (rows ! i) \<noteq> Some now \<longrightarrow> rv_updated_at (rows' ! i) \<noteq> rv_updated_at (rows ! i))))"
  using assms unfolding update_reviews_def update_reviews_updated_at_def
  by (rule update_statement_stamped) simp

lemma update_orders_stamped:
  assumes "update_orders now constraints wh st rows = Inr rows'"
  shows "length rows' = length rows \<and>
         (\<forall>i < length rows.
            (wh (rows ! i) \<longrightarrow> o_updated_at (rows' ! i) = Some now) \<and>
            (\<not> wh (rows ! i) \<longrightarrow> rows' ! i = rows ! i) \<and>
            (rows' ! i \<noteq> rows ! i \<longrightarrow>
               o_updated_at (rows' ! i) = Some now \<and>
               (o_updated_at (rows ! i) \<noteq> Some now \<longrightarrow> o_updated_at (rows' ! i) \<noteq> o_updated_at (rows ! i))))"
  using assms unfolding update_orders_def update_orders_updated_at_def
  by (rule update_statement_stamped) simp

lemma update_cart_stamped:
  assumes "update_cart now constraints wh st rows = Inr rows'"
  shows "length rows' = length rows \<and>
         (\<forall>i < length rows.
            (wh (rows ! i) \<longrightarrow> ct_updated_at (rows' ! i) = Some now) \<and>
            (\<not> wh (rows ! i) \<longrightarrow> rows' ! i = rows ! i) \<and>
            (rows' ! i \<noteq> rows ! i \<longrightarrow>
               ct_updated_at (rows' ! i) = Some now \<and>
               (ct_updated_at (rows ! i) \<noteq> Some now \<longrightarrow> ct_updated_at (rows' ! i) \<noteq> ct_updated_at (rows ! i))))"
  using assms unfolding update_cart_def update_cart_updated_at_def
  by (rule update_statement_stamped) simp

lemma update_user_preferences_stamped:
  assumes "update_user_preferences now constraints wh st rows = Inr rows'"
  shows "length rows' = length rows \<and>
         (\<forall>i < length rows.
            (wh (rows ! i) \<longrightarrow> up_updated_at (rows' ! i) = Some now) \<and>
            (\<not> wh (rows ! i) \<longrightarrow> rows' ! i = rows ! i) \<and>
            (rows' ! i \<noteq> rows ! i \<longrightarrow>
               up_updated_at (rows' ! i) = Some now \<and>
               (up_updated_at (rows ! i) \<noteq> Some now \<longrightarrow> up_updated_at (rows' ! i) \<noteq> up_updated_at (rows ! i))))"
  using assms unfolding update_user_preferences_def update_user_preferences_updated_at_def
  by (rule update_statement_stamped) simp

text \<open>
  Claim C10, as the triggers have it. On each of \<^verbatim>\<open>users\<close>, \<^verbatim>\<open>products\<close>,
  \<^verbatim>\<open>reviews\<close>, \<^verbatim>\<open>orders\<close>, \<^verbatim>\<open>cart\<close> and \<^verbatim>\<open>user_preferences\<close>, an
  \<^verbatim>\<open>UPDATE\<close> that goes through leaves every row it selected with
  \<^verbatim>\<open>updated_at\<close> equal to \<^verbatim>\<open>NOW()\<close>, whatever its \<^verbatim>\<open>SET\<close> clause wrote
  into that column, and leaves every other row as it was. So a row that differs
  from its old self carries \<^verbatim>\<open>NOW()\<close>, and its \<^verbatim>\<open>updated_at\<close> differs from
  the older value unless that value was this \<^verbatim>\<open>NOW()\<close> already.
\<close>

theorem updated_at_set_on_every_update:
  "(\<forall>constraints wh st rows rows'.
      update_users now constraints wh st rows = Inr rows' \<longrightarrow>
      length rows' = length rows \<and>
      (\<forall>i < length rows.
         (wh (rows ! i) \<longrightarrow> u_updated_at (rows' ! i) = Some now) \<and>
         (\<not> wh (rows ! i) \<longrightarrow> rows' ! i = rows ! i) \<and>
         (rows' ! i \<noteq> rows ! i \<longrightarrow>
            u_updated_at (rows' ! i) = Some now \<and>
            (u_updated_at (rows ! i) \<noteq> Some now \<longrightarrow> u_updated_at (rows' ! i) \<noteq> u_updated_at (rows ! i))))) \<and>
   (\<forall>constraints wh st rows rows'.
      update_products now constraints wh st rows = Inr rows' \<longrightarrow>
      length rows' = length rows \<and>
      (\<forall>i < length rows.
         (wh (rows ! i) \<longrightarrow> p_updated_at (rows' ! i) = Some now) \<and>
         (\<not> wh (rows ! i) \<longrightarrow> rows' ! i = rows ! i) \<and>
         (rows' ! i \<noteq> rows ! i \<longrightarrow>
            p_updated_at (rows' ! i) = Some now \<and>
            (p_updated_at (rows ! i) \<noteq> Some now \<longrightarrow> p_updated_at (rows' ! i) \<noteq> p_updated_at (rows ! i))))) \<and>
   (\<forall>constraints wh st rows rows'.
      update_reviews now constraints wh st rows = Inr rows' \<longrightarrow>
      length rows' = length rows \<and>
      (\<forall>i < length rows.
         (wh (rows ! i) \<longrightarrow> rv_updated_at (rows' ! i) = Some now) \<and>
         (\<not> wh (rows ! i) \<longrightarrow> rows' ! i = rows ! i) \<and>
         (rows' ! i \<noteq> rows ! i \<longrightarrow>
            rv_updated_at (rows' ! i) = Some now \<and>
            (rv_updated_at (rows ! i) \<noteq> Some now \<longrightarrow> rv_updated_at (rows' ! i) \<noteq> rv_updated_at (rows ! i))))) \<and>
   (\<forall>constraints wh st rows rows'.
      update_orders now constraints wh st rows = Inr rows' \<longrightarrow>
      length rows' = length rows \<and>
      (\<forall>i < length rows.
         (wh (rows ! i) \<longrightarrow> o_updated_at (rows' ! i) = Some now) \<and>
         (\<not> wh (rows ! i) \<longrightarrow> rows' ! i = rows ! i) \<and>
         (rows' ! i \<noteq> rows ! i \<longrightarrow>
            o_updated_at (rows' ! i) = Some now \<and>
            (o_updated_at (rows ! i) \<noteq> Some now \<longrightarrow> o_updated_at (rows' ! i) \<noteq> o_updated_at (rows ! i))))) \<and>
   (\<forall>constraints wh st rows rows'.
      update_cart now constraints wh st rows = Inr rows' \<longrightarrow>
      length rows' = length rows \<and>
      (\<forall>i < length rows.
         (wh (rows ! i) \<longrightarrow> ct_updated_at (rows' ! i) = Some now) \<and>
         (\<not> wh (rows ! i) \<longrightarrow> rows' ! i = rows ! i) \<and>
         (rows' ! i \<noteq> rows ! i \<longrightarrow>
            ct_updated_at (rows' ! i) = Some now \<and>
            (ct_updated_at (rows ! i) \<noteq> Some now \<longrightarrow> ct_updated_at (rows' ! i) \<noteq> ct_updated_at (rows ! i))))) \<and>
   (\<forall>constraints wh st rows rows'.
      update_user_preferences now constraints wh st rows = Inr rows' \<longrightarrow>
      length rows' = length rows \<and>
      (\<forall>i < length rows.
         (wh (rows ! i) \<longrightarrow> up_updated_at (rows' ! i) = Some now) \<and>
         (\<not> wh (rows ! i) \<longrightarrow> rows' ! i = rows ! i) \<and>
         (rows' ! i \<noteq> rows ! i \<longrightarrow>
            up_updated_at (rows' ! i) = Some now \<and>
            (up_updated_at (rows ! i) \<noteq> Some now \<longrightarrow> up_updated_at (rows' ! i) \<noteq> up_updated_at (rows ! i)))))"
  by (intro conjI allI impI update_users_stamped update_products_stamped
      update_reviews_stamped update_orders_stamped update_cart_stamped
      update_user_preferences_stamped)

lemma update_users_example:
  "update_users 5000 (\<lambda>rows. None) (\<lambda>u. u_id u = 100)
     (\<lambda>u. u\<lparr>u_full_name := Some ''Alice L.'', u_updated_at := Some 1\<rparr>) [alice] =
   Inr [alice\<lparr>u_full_name := Some ''Alice L.'', u_updated_at := Some 5000\<rparr>]"
  by (simp add: update_users_def update_statement_def update_users_updated_at_def
      update_updated_at_column_def alice_def)

lemma update_products_example:
  "update_products 5000 (\<lambda>rows. None) (\<lambda>p. p_id p = 1) (\<lambda>p. p\<lparr>p_price := 4000\<rparr>) [lamp, desk] =
   Inr [lamp\<lparr>p_price := 4000, p_updated_at := Some 5000\<rparr>, desk]"
  by (simp add: update_products_def update_statement_def update_products_updated_at_def
      update_updated_at_column_def lamp_def desk_def)

lemma update_reviews_example:
  "update_reviews 5000 (\<lambda>rows. None) (\<lambda>r. True) (\<lambda>r. r\<lparr>rv_rating := Some 4\<rparr>)
     [\<lparr> rv_id = 300, rv_product_id = 1, rv_buyer_id = 100, rv_seller_id = 100,
        rv_rating = Some 5, rv_updated_at = Some 1000 \<rparr>] =
   Inr [\<lparr> rv_id = 300, rv_product_id = 1, rv_buyer_id = 100, rv_seller_id = 100,
           rv_rating = Some 4, rv_updated_at = Some 5000 \<rparr>]"
  by (simp add: update_reviews_def update_statement_def update_reviews_updated_at_def
      update_updated_at_column_def)

lemma update_orders_example:
  "update_orders 5000 (\<lambda>rows. None) (\<lambda>ord. o_id ord = 500) (\<lambda>ord. ord\<lparr>o_status := Some ''paid''\<rparr>)
     [\<lparr> o_id = 500, o_buyer_id = 100, o_status = Some ''pending'',
        o_payment_status = Some ''pending'', o_total_amount = 12000, o_updated_at = None \<rparr>] =
   Inr [\<lparr> o_id = 500, o_buyer_id = 100, o_status = Some ''paid'',
           o_payment_status = Some ''pending'', o_total_amount = 12000,
           o_updated_at = Some 5000 \<rparr>]"
  by (simp add: update_orders_def update_statement_def update_orders_updated_at_def
      update_updated_at_column_def)

lemma update_cart_example:
  "update_cart 5000 (\<lambda>rows. None) (\<lambda>c. ct_product_id c = 2) (\<lambda>c. c\<lparr>ct_quantity := 3\<rparr>)
     [\<lparr> ct_id = 700, ct_user_id = 100, ct_product_id = 2, ct_quantity = 1,
        ct_updated_at = Some 1000 \<rparr>] =
   Inr [\<lparr> ct_id = 700, ct_user_id = 100, ct_product_id = 2, ct_quantity = 3,
           ct_updated_at = Some 5000 \<rparr>]"
  by (simp add: update_cart_def update_statement_def update_cart_updated_at_def
      update_updated_at_column_def)

lemma update_user_preferences_example:
  "update_user_preferences 5000 (\<lambda>rows. None) (\<lambda>r. up_user_id r = 100)
     (\<lambda>r. r\<lparr>up_theme := Some ''dark''\<rparr>)
     [\<lparr> up_user_id = 100, up_theme = Some ''system'', up_language = Some ''en'',
        up_updated_at = Some 1000 \<rparr>] =
   Inr [\<lparr> up_user_id = 100, up_theme = Some ''dark'', up_language = Some ''en'',
           up_updated_at = Some 5000 \<rparr>]"
  by (simp add: update_user_preferences_def update_statement_def
      update_user_preferences_updated_at_def update_updated_at_column_def)

text \<open>
  One update per table, at \<^verbatim>\<open>NOW()\<close> = 5000. The update of \<^verbatim>\<open>users\<close> tries
  to write the stamp 1 itself; the trigger overrides it. The desk, which the update
  of \<^verbatim>\<open>products\<close> does not select, keeps its row.
\<close>

theorem updated_at_set_on_every_update_witness:
  "update_users 5000 (\<lambda>rows. None) (\<lambda>u. u_id u = 100)
     (\<lambda>u. u\<lparr>u_full_name := Some ''Alice L.'', u_updated_at := Some 1\<rparr>) [alice] =
   Inr [alice\<lparr>u_full_name := Some ''Alice L.'', u_updated_at := Some 5000\<rparr>] \<and>
   u_updated_at ([alice\<lparr>u_full_name := Some ''Alice L.'', u_updated_at := Some 5000\<rparr>] ! 0) = Some 5000 \<and>
   update_products 5000 (\<lambda>rows. None) (\<lambda>p. p_id p = 1) (\<lambda>p. p\<lparr>p_price := 4000\<rparr>) [lamp, desk] =
   Inr [lamp\<lparr>p_price := 4000, p_updated_at := Some 5000\<rparr>, desk] \<and>
   p_updated_at ([lamp\<lparr>p_price := 4000, p_updated_at := Some 5000\<rparr>, desk] ! 0) = Some 5000 \<and>
   update_reviews 5000 (\<lambda>rows. None) (\<lambda>r. True) (\<lambda>r. r\<lparr>rv_rating := Some 4\<rparr>)
     [\<lparr> rv_id = 300, rv_product_id = 1, rv_buyer_id = 100, rv_seller_id = 100,
        rv_rating = Some 5, rv_updated_at = Some 1000 \<rparr>] =
   Inr [\<lparr> rv_id = 300, rv_product_id = 1, rv_buyer_id = 100, rv_seller_id = 100,
           rv_rating = Some 4, rv_updated_at = Some 5000 \<rparr>] \<and>
   rv_updated_at ([\<lparr> rv_id = 300, rv_product_id = 1, rv_buyer_id = 100, rv_seller_id = 100,
           rv_rating = Some 4, rv_updated_at = Some 5000 \<rparr>] ! 0) = Some 5000 \<and>
   update_orders 5000 (\<lambda>rows. None) (\<lambda>ord. o_id ord = 500) (\<lambda>ord. ord\<lparr>o_status := Some ''paid''\<rparr>)
     [\<lparr> o_id = 500, o_buyer_id = 100, o_status = Some ''pending'',
        o_payment_status = Some ''pending'', o_total_amount = 12000, o_updated_at = None \<rparr>] =
   Inr [\<lparr> o_id = 500, o_buyer_id = 100, o_status = Some ''paid'',
           o_payment_status = Some ''pending'', o_total_amount = 12000,
           o_updated_at = Some 5000 \<rparr>] \<and>
   o_updated_at ([\<lparr> o_id = 500, o_buyer_id = 100, o_status = Some ''paid'',
           o_payment_status = Some ''pending'', o_total_amount = 12000,
           o_updated_at = Some 5000 \<rparr>] ! 0) = Some 5000 \<and>
   update_cart 5000 (\<lambda>rows. None) (\<lambda>c. ct_product_id c = 2) (\<lambda>c. c\<lparr>ct_quantity := 3\<rparr>)
     [\<lparr> ct_id = 700, ct_user_id = 100, ct_product_id = 2, ct_quantity = 1,
        ct_updated_at = Some 1000 \<rparr>] =
   Inr [\<lparr> ct_id = 700, ct_user_id = 100, ct_product_id = 2, ct_quantity = 3,
           ct_updated_at = Some 5000 \<rparr>] \<and>
   ct_updated_at ([\<lparr> ct_id = 700, ct_user_id = 100, ct_product_id = 2, ct_quantity = 3,
           ct_updated_at = Some 5000 \<rparr>] ! 0) = Some 5000 \<and>
   update_user_preferences 5000 (\<lambda>rows. None) (\<lambda>r. up_user_id r = 100)
     (\<lambda>r. r\<lparr>up_theme := Some ''dark''\<rparr>)
     [\<lparr> up_user_id = 100, up_theme = Some ''system'', up_language = Some ''en'',
        up_updated_at = Some 1000 \<rparr>] =
   Inr [\<lparr> up_user_id = 100, up_theme = Some ''dark'', up_language = Some ''en'',
           up_updated_at = Some 5000 \<rparr>] \<and>
   up_updated_at ([\<lparr> up_user_id = 100, up_theme = Some ''dark'', up_language = Some ''en'',
           up_updated_at = Some 5000 \<rparr>] ! 0) = Some 5000"
proof -
  note t = updated_at_set_on_every_update [of 5000]
  note t0 = t [THEN conjunct1, rule_format, OF update_users_example, THEN conjunct2,
      rule_format, of 0, THEN conjunct1, rule_format]
  have s0: "u_updated_at ([alice\<lparr>u_full_name := Some ''Alice L.'', u_updated_at := Some 5000\<rparr>] ! 0) = Some 5000"
    by (rule t0) (simp_all add: alice_def lamp_def)
  note t1 = t [THEN conjunct2, THEN conjunct1, rule_format, OF update_products_example, THEN conjunct2,
      rule_format, of 0, THEN conjunct1, rule_format]
  have s1: "p_updated_at ([lamp\<lparr>p_price := 4000, p_updated_at := Some 5000\<rparr>, desk] ! 0) = Some 5000"
    by (rule t1) (simp_all add: alice_def lamp_def)
  note t2 = t [THEN conjunct2, THEN conjunct2, THEN conjunct1, rule_format, OF update_reviews_example, THEN conjunct2,
      rule_format, of 0, THEN conjunct1, rule_format]
  have s2: "rv_updated_at ([\<lparr> rv_id = 300, rv_product_id = 1, rv_buyer_id = 100, rv_seller_id = 100,
           rv_rating = Some 4, rv_updated_at = Some 5000 \<rparr>] ! 0) = Some 5000"
    by (rule t2) (simp_all add: alice_def lamp_def)
  note t3 = t [THEN conjunct2, THEN conjunct2, THEN conjunct2, THEN conjunct1, rule_format, OF update_orders_example, THEN conjunct2,
      rule_format, of 0, THEN conjunct1, rule_format]
  have s3: "o_updated_at ([\<lparr> o_id = 500, o_buyer_id = 100, o_status = Some ''paid'',
           o_payment_status = Some ''pending'', o_total_amount = 12000,
           o_updated_at = Some 5000 \<rparr>] ! 0) = Some 5000"
    by (rule t3) (simp_all add: alice_def lamp_def)
  note t4 = t [THEN conjunct2, THEN conjunct2, THEN conjunct2, THEN conjunct2, THEN conjunct1, rule_format, OF update_cart_example, THEN conjunct2,
      rule_format, of 0, THEN conjunct1, rule_format]
  have s4: "ct_updated_at ([\<lparr> ct_id = 700, ct_user_id = 100, ct_product_id = 2, ct_quantity = 3,
           ct_updated_at = Some 5000 \<rparr>] ! 0) = Some 5000"
    by (rule t4) (simp_all add: alice_def lamp_def)
  note t5 = t [THEN conjunct2, THEN conjunct2, THEN conjunct2, THEN conjunct2, THEN conjunct2, rule_format, OF update_user_preferences_example, THEN conjunct2,
      rule_format, of 0, THEN conjunct1, rule_format]
  have s5: "up_updated_at ([\<lparr> up_user_id = 100, up_theme = Some ''dark'', up_language = Some ''en'',
           up_updated_at = Some 5000 \<rparr>] ! 0) = Some 5000"
    by (rule t5) (simp_all add: alice_def lamp_def)
  show ?thesis
    by (intro conjI s0 update_users_example s1 update_products_example s2 update_reviews_example s3 update_orders_example s4 update_cart_example s5 update_user_preferences_example)
qed

text \<open>
  The claim as stated fails inside a transaction, where \<^verbatim>\<open>NOW()\<close> stands still:
  the first update of the lamp stamps it 5000, the second takes one off its stock and
  stamps it 5000 again. The row has changed and \<^verbatim>\<open>updated_at\<close> has not.
\<close>

theorem second_update_keeps_updated_at:
  "in_transaction 5000
     [\<lambda>now. update_products now (\<lambda>rows. None) (\<lambda>p. p_id p = 1) (\<lambda>p. p\<lparr>p_price := 4000\<rparr>)]
     [lamp] =
   Inr [lamp\<lparr>p_price := 4000, p_updated_at := Some 5000\<rparr>] \<and>
   in_transaction 5000
     [\<lambda>now. update_products now (\<lambda>rows. None) (\<lambda>p. p_id p = 1) (\<lambda>p. p\<lparr>p_price := 4000\<rparr>),
      \<lambda>now. update_products now (\<lambda>rows. None) (\<lambda>p. p_id p = 1)
               (\<lambda>p. p\<lparr>p_stock_quantity := Some 2\<rparr>)]
     [lamp] =
   Inr [lamp\<lparr>p_price := 4000, p_stock_quantity := Some 2, p_updated_at := Some 5000\<rparr>] \<and>
   lamp\<lparr>p_price := 4000, p_stock_quantity := Some 2, p_updated_at := Some 5000\<rparr> \<noteq>
     lamp\<lparr>p_price := 4000, p_updated_at := Some 5000\<rparr> \<and>
   p_updated_at (lamp\<lparr>p_price := 4000, p_stock_quantity := Some 2, p_updated_at := Some 5000\<rparr>) =
     p_updated_at (lamp\<lparr>p_price := 4000, p_updated_at := Some 5000\<rparr>)"
  by (simp add: update_products_def update_statement_def update_products_updated_at_def
      update_updated_at_column_def lamp_def)

section \<open>Startup: a store that does not answer\<close>

lemma NewPostgresDB_ping_fails:
  assumes "\<forall>db. sys_db_ping sys db \<noteq> None"
  shows "\<exists>err. NewPostgresDB sys cfg = Inl err"
proof -
  have "\<exists>err. (case sys_sql_open sys connStr of
           Inl err \<Rightarrow> Inl (''failed to open database connection: '' @ err)
         | Inr db \<Rightarrow>
             (case sys_db_ping sys db of
                Some err \<Rightarrow> Inl (''failed to ping database: '' @ err)
              | None \<Rightarrow>
                  Inr \<lparr> pg_db = db, pg_max_open_conns = 25, pg_max_idle_conns = 25,
                        pg_conn_max_lifetime = 5 * minute \<rparr>)) = Inl err" for connStr
    using assms by (cases "sys_sql_open sys connStr") (auto split: option.splits)
  then show ?thesis unfolding NewPostgresDB_def Let_def by blast
qed

lemma NewRedisClient_ping_fails:
  assumes "\<forall>client. sys_redis_ping sys client \<noteq> None"
  shows "\<exists>err. NewRedisClient sys cfg = Inl err"
  using assms unfolding NewRedisClient_def Let_def by (auto split: option.splits)

lemma main_startup_fatal:
  assumes "\<And>cfg. Load sys configFile = Inr cfg \<Longrightarrow>
           (\<exists>err. NewPostgresDB sys (cfg_database cfg) = Inl err) \<or>
           (\<exists>err. NewRedisClient sys (cfg_redis cfg) = Inl err)"
  shows "main_startup sys configFile \<in>
           {Fatal ''Failed to load configuration'', Fatal ''Failed to connect to database'',
            Fatal ''Failed to connect to Redis''}"
proof (cases "Load sys configFile")
  case (Inl err)
  then show ?thesis by (simp add: main_startup_def)
next
  case (Inr c)
  show ?thesis
  proof (cases "NewPostgresDB sys (cfg_database c)")
    case (Inl err)
    with Inr show ?thesis by (simp add: main_startup_def)
  next
    case pg: (Inr db)
    with assms [OF Inr] obtain err where "NewRedisClient sys (cfg_redis c) = Inl err"
      by auto
    with Inr pg show ?thesis by (simp add: main_startup_def)
  qed
qed

lemma main_startup_serving:
  assumes "main_startup sys configFile = Serving db redisClient addr"
  shows "\<exists>cfg. Load sys configFile = Inr cfg \<and> NewPostgresDB sys (cfg_database cfg) = Inr db \<and>
           NewRedisClient sys (cfg_redis cfg) = Inr redisClient \<and>
           sys_db_ping sys (pg_db db) = None \<and> sys_redis_ping sys redisClient = None"
proof -
  from assms obtain cfg where l: "Load sys configFile = Inr cfg"
    and pg: "NewPostgresDB sys (cfg_database cfg) = Inr db"
    and rc: "NewRedisClient sys (cfg_redis cfg) = Inr redisClient"
    unfolding main_startup_def by (auto split: sum.splits)
  from pg have "sys_db_ping sys (pg_db db) = None"
    unfolding NewPostgresDB_def Let_def by (auto split: sum.splits option.splits)
  moreover from rc have "sys_redis_ping sys redisClient = None"
    unfolding NewRedisClient_def Let_def by (auto split: option.splits)
  ultimately show ?thesis using l pg rc by blast
qed

text \<open>
  Claim C7. Each constructor pings its store and returns an error when the ping
  fails; \<^verbatim>\<open>main\<close> ends the process on either error, so with a store that
  answers no ping the process never gets to serve; and whenever it does serve, both
  pings were answered.
\<close>

theorem unreachable_store_is_fatal:
  "((\<forall>db. sys_db_ping sys db \<noteq> None) \<longrightarrow> (\<exists>err. NewPostgresDB sys dbcfg = Inl err)) \<and>
   ((\<forall>client. sys_redis_ping sys client \<noteq> None) \<longrightarrow> (\<exists>err. NewRedisClient sys rcfg = Inl err)) \<and>
   ((\<forall>db. sys_db_ping sys db \<noteq> None) \<or> (\<forall>client. sys_redis_ping sys client \<noteq> None) \<longrightarrow>
      main_startup sys configFile \<in>
        {Fatal ''Failed to load configuration'', Fatal ''Failed to connect to database'',
         Fatal ''Failed to connect to Redis''}) \<and>
   (\<forall>db redisClient addr. main_startup sys configFile = Serving db redisClient addr \<longrightarrow>
      sys_db_ping sys (pg_db db) = None \<and> sys_redis_ping sys redisClient = None)"
proof (intro conjI impI allI)
  assume "\<forall>db. sys_db_ping sys db \<noteq> None"
  then show "\<exists>err. NewPostgresDB sys dbcfg = Inl err" by (rule NewPostgresDB_ping_fails)
next
  assume "\<forall>client. sys_redis_ping sys client \<noteq> None"
  then show "\<exists>err. NewRedisClient sys rcfg = Inl err" by (rule NewRedisClient_ping_fails)
next
  assume "(\<forall>db. sys_db_ping sys db \<noteq> None) \<or> (\<forall>client. sys_redis_ping sys client \<noteq> None)"
  then have "(\<exists>err. NewPostgresDB sys (cfg_database cfg) = Inl err) \<or>
           (\<exists>err. NewRedisClient sys (cfg_redis cfg) = Inl err)" for cfg :: Config
    using NewPostgresDB_ping_fails NewRedisClient_ping_fails by blast
  then show "main_startup sys configFile \<in>
        {Fatal ''Failed to load configuration'', Fatal ''Failed to connect to database'',
         Fatal ''Failed to connect to Redis''}"
    by (intro main_startup_fatal) blast
next
  fix db redisClient addr
  assume "main_startup sys configFile = Serving db redisClient addr"
  from main_startup_serving [OF this]
  show "sys_db_ping sys (pg_db db) = None" "sys_redis_ping sys redisClient = None"
    by blast+
qed

lemma load_default: "Load healthy_system ''config.yaml'' = Inr DefaultConfig"
  by (simp add: Load_def healthy_system_def env_override_def env_override_int_def DefaultConfig_def)

lemma postgres_healthy:
  "NewPostgresDB healthy_system (cfg_database DefaultConfig) =
     Inr \<lparr> pg_db = 0, pg_max_open_conns = 25, pg_max_idle_conns = 25,
           pg_conn_max_lifetime = 300000000000 \<rparr>"
  by (simp add: NewPostgresDB_def healthy_system_def minute_def second_def)

lemma redis_healthy:
  "NewRedisClient healthy_system (cfg_redis DefaultConfig) =
     Inr \<lparr> opt_addr = ''localhost:6379'', opt_password = [], opt_db = 0 \<rparr>"
  by (simp add: NewRedisClient_def healthy_system_def env_override_def env_override_int_def
      DefaultConfig_def itoa_def)

lemma startup_healthy:
  "main_startup healthy_system ''config.yaml'' =
     Serving \<lparr> pg_db = 0, pg_max_open_conns = 25, pg_max_idle_conns = 25,
               pg_conn_max_lifetime = 300000000000 \<rparr>
             \<lparr> opt_addr = ''localhost:6379'', opt_password = [], opt_db = 0 \<rparr>
             '':8080''"
  by (simp add: main_startup_def load_default postgres_healthy redis_healthy)
     (simp add: DefaultConfig_def itoa_def)

lemma load_postgres_down: "Load postgres_down ''config.yaml'' = Inr DefaultConfig"
  by (simp add: Load_def postgres_down_def healthy_system_def env_override_def
      env_override_int_def DefaultConfig_def)

lemma load_redis_down: "Load redis_down ''config.yaml'' = Inr DefaultConfig"
  by (simp add: Load_def redis_down_def healthy_system_def env_override_def
      env_override_int_def DefaultConfig_def)

lemma postgres_down_error:
  "NewPostgresDB postgres_down (cfg_database DefaultConfig) =
     Inl ''failed to ping database: connection refused''"
  by (simp add: NewPostgresDB_def postgres_down_def healthy_system_def)

lemma redis_down_postgres:
  "NewPostgresDB redis_down (cfg_database DefaultConfig) =
     Inr \<lparr> pg_db = 0, pg_max_open_conns = 25, pg_max_idle_conns = 25,
           pg_conn_max_lifetime = 300000000000 \<rparr>"
  by (simp add: NewPostgresDB_def redis_down_def healthy_system_def minute_def second_def)

lemma redis_down_error:
  "NewRedisClient redis_down (cfg_redis DefaultConfig) =
     Inl ''failed to ping Redis: connection refused''"
  by (simp add: NewRedisClient_def redis_down_def healthy_system_def)

lemma startup_postgres_down:
  "main_startup postgres_down ''config.yaml'' = Fatal ''Failed to connect to database''"
  by (simp add: main_startup_def load_postgres_down postgres_down_error)

lemma startup_redis_down:
  "main_startup redis_down ''config.yaml'' = Fatal ''Failed to connect to Redis''"
  by (simp add: main_startup_def load_redis_down redis_down_postgres redis_down_error)

text \<open>
  With PostgreSQL refusing the ping, the constructor returns its error and the
  process ends; likewise with Redis; with both answering, the server is set up.
\<close>

theorem unreachable_store_is_fatal_witness:
  "(\<exists>err. NewPostgresDB postgres_down (cfg_database DefaultConfig) = Inl err) \<and>
   main_startup postgres_down ''config.yaml'' = Fatal ''Failed to connect to database'' \<and>
   (\<exists>err. NewRedisClient redis_down (cfg_redis DefaultConfig) = Inl err) \<and>
   main_startup redis_down ''config.yaml'' = Fatal ''Failed to connect to Redis'' \<and>
   sys_db_ping healthy_system 0 = None \<and>
   sys_redis_ping healthy_system \<lparr> opt_addr = ''localhost:6379'', opt_password = [], opt_db = 0 \<rparr>
     = None \<and>
   main_startup healthy_system ''config.yaml'' =
     Serving \<lparr> pg_db = 0, pg_max_open_conns = 25, pg_max_idle_conns = 25,
               pg_conn_max_lifetime = 300000000000 \<rparr>
             \<lparr> opt_addr = ''localhost:6379'', opt_password = [], opt_db = 0 \<rparr>
             '':8080''"
proof -
  have pd: "\<forall>db. sys_db_ping postgres_down db \<noteq> None"
    by (simp add: postgres_down_def)
  have rd: "\<forall>client. sys_redis_ping redis_down client \<noteq> None"
    by (simp add: redis_down_def)
  note p = unreachable_store_is_fatal [of postgres_down "cfg_database DefaultConfig"
      "cfg_redis DefaultConfig" "''config.yaml''"]
  note r = unreachable_store_is_fatal [of redis_down "cfg_database DefaultConfig"
      "cfg_redis DefaultConfig" "''config.yaml''"]
  note h = unreachable_store_is_fatal [of healthy_system "cfg_database DefaultConfig"
      "cfg_redis DefaultConfig" "''config.yaml''"]
  from p pd have 1: "\<exists>err. NewPostgresDB postgres_down (cfg_database DefaultConfig) = Inl err"
    by blast
  from r rd have 2: "\<exists>err. NewRedisClient redis_down (cfg_redis DefaultConfig) = Inl err"
    by blast
  from h startup_healthy have 3: "sys_db_ping healthy_system 0 = None"
    "sys_redis_ping healthy_system \<lparr> opt_addr = ''localhost:6379'', opt_password = [], opt_db = 0 \<rparr>
     = None"
    by (metis PostgresDB.select_convs(1))+
  show ?thesis
    by (intro conjI 1 2 3 startup_postgres_down startup_redis_down startup_healthy)
qed

section \<open>The middleware stack of every route\<close>

lemma chain_append: "chain (ms @ ns) h = chain ms (chain ns h)"
  by (induction ms) simp_all

lemma chain_short_circuit:
  assumes "\<And>next next'. m next = m next'"
  shows "chain (pre @ m # post) h = chain (pre @ [m]) h'"
  using assms [of "chain post h" h'] by (simp add: chain_append)

lemma serve_short_circuit:
  assumes "rt_stack r = pre @ m # post" and "\<And>next next'. impl m next = impl m next'"
  shows "serve impl handlers r = serve impl handlers' (r\<lparr>rt_stack := pre @ [m]\<rparr>)"
  unfolding serve_def assms(1)
  using chain_short_circuit [of "impl m" "map impl pre" "map impl post", OF assms(2)]
  by simp

lemma route_table_stacks:
  "\<forall>r \<in> set (route_table secret).
     rt_stack r = [RequestID, RealIP, Logger, Recoverer, Timeout (30 * second),
        CorsHandler cors_policy, LimitByIP 100 (1 * minute)] \<or>
     rt_stack r = [RequestID, RealIP, Logger, Recoverer, Timeout (30 * second),
        CorsHandler cors_policy, LimitByIP 100 (1 * minute),
        JWTAuth ''HS256'' secret, SetHeader ''Authorization'' ''Bearer'']"
  by (simp add: route_table_def main_router_def)

lemma route_table_public:
  "map (\<lambda>r. (rt_method r, rt_pattern r))
     (filter (\<lambda>r. \<forall>alg key. JWTAuth alg key \<notin> set (rt_stack r)) (route_table secret)) =
   [(''GET'', ''/health''), (''POST'', ''/api/v1/auth/register''),
    (''POST'', ''/api/v1/auth/login''), (''POST'', ''/api/v1/auth/refresh''),
    (''GET'', ''/api/v1/categories'')]"
  by (simp add: route_table_def main_router_def)

lemma length_route_table: "length (route_table secret) = 34"
  by (simp add: route_table_def main_router_def)

lemma serve_public:
  assumes "rt_stack r = [RequestID, RealIP, Logger, Recoverer, Timeout (30 * second),
        CorsHandler cors_policy, LimitByIP 100 (1 * minute)]"
  shows "serve impl handlers r =
     impl RequestID (impl RealIP (impl Logger (impl Recoverer (impl (Timeout (30 * second))
       (impl (CorsHandler cors_policy) (impl (LimitByIP 100 (1 * minute))
         (handlers (rt_handler r))))))))"
  by (simp add: serve_def assms)

lemma serve_protected:
  assumes "rt_stack r = [RequestID, RealIP, Logger, Recoverer, Timeout (30 * second),
        CorsHandler cors_policy, LimitByIP 100 (1 * minute),
        JWTAuth ''HS256'' secret, SetHeader ''Authorization'' ''Bearer'']"
  shows "serve impl handlers r =
     impl RequestID (impl RealIP (impl Logger (impl Recoverer (impl (Timeout (30 * second))
       (impl (CorsHandler cors_policy) (impl (LimitByIP 100 (1 * minute))
         (impl (JWTAuth ''HS256'' secret) (impl (SetHeader ''Authorization'' ''Bearer'')
           (handlers (rt_handler r))))))))))"
  by (simp add: serve_def assms)

text \<open>
  Claim C6, as \<^verbatim>\<open>main\<close> has it. Every route is behind the same seven stages in
  this order: request-ID tagging, real-client-IP resolution, access logging, panic
  recovery, a 30-second timeout, CORS, per-IP rate limiting (100 per minute). The
  routes with no JWT stage are the health check, the three \<^verbatim>\<open>/auth\<close> routes and
  \<^verbatim>\<open>/categories\<close>; every other route has two more stages, JWT verification and
  then a stage that sets the header \<^verbatim>\<open>Authorization: Bearer\<close>, which is the last
  one before the handler. Each stage wraps the rest, so a stage that answers without
  calling on gives the same answer whatever the later stages and the handler are.
\<close>

theorem middleware_stages_in_order:
  "(\<forall>r \<in> set (route_table secret).
     (rt_stack r = [RequestID, RealIP, Logger, Recoverer, Timeout (30 * second),
        CorsHandler cors_policy, LimitByIP 100 (1 * minute)] \<or>
      rt_stack r = [RequestID, RealIP, Logger, Recoverer, Timeout (30 * second),
        CorsHandler cors_policy, LimitByIP 100 (1 * minute),
        JWTAuth ''HS256'' secret, SetHeader ''Authorization'' ''Bearer'']) \<and>
     (rt_stack r = [RequestID, RealIP, Logger, Recoverer, Timeout (30 * second),
        CorsHandler cors_policy, LimitByIP 100 (1 * minute)] \<longrightarrow>
        serve impl handlers r =
          impl RequestID (impl RealIP (impl Logger (impl Recoverer (impl (Timeout (30 * second))
            (impl (CorsHandler cors_policy) (impl (LimitByIP 100 (1 * minute))
              (handlers (rt_handler r))))))))) \<and>
     (rt_stack r = [RequestID, RealIP, Logger, Recoverer, Timeout (30 * second),
        CorsHandler cors_policy, LimitByIP 100 (1 * minute),
        JWTAuth ''HS256'' secret, SetHeader ''Authorization'' ''Bearer''] \<longrightarrow>
        serve impl handlers r =
          impl RequestID (impl RealIP (impl Logger (impl Recoverer (impl (Timeout (30 * second))
            (impl (CorsHandler cors_policy) (impl (LimitByIP 100 (1 * minute))
              (impl (JWTAuth ''HS256'' secret) (impl (SetHeader ''Authorization'' ''Bearer'')
                (handlers (rt_handler r))))))))))) \<and>
     (\<forall>pre m post handlers'.
        rt_stack r = pre @ m # post \<longrightarrow> (\<forall>next next'. impl m next = impl m next') \<longrightarrow>
        serve impl handlers r = serve impl handlers' (r\<lparr>rt_stack := pre @ [m]\<rparr>))) \<and>
   map (\<lambda>r. (rt_method r, rt_pattern r))
     (filter (\<lambda>r. \<forall>alg key. JWTAuth alg key \<notin> set (rt_stack r)) (route_table secret)) =
   [(''GET'', ''/health''), (''POST'', ''/api/v1/auth/register''),
    (''POST'', ''/api/v1/auth/login''), (''POST'', ''/api/v1/auth/refresh''),
    (''GET'', ''/api/v1/categories'')]"
proof (intro conjI ballI allI impI)
  fix r assume "r \<in> set (route_table secret)"
  then show "rt_stack r = [RequestID, RealIP, Logger, Recoverer, Timeout (30 * second),
        CorsHandler cors_policy, LimitByIP 100 (1 * minute)] \<or>
      rt_stack r = [RequestID, RealIP, Logger, Recoverer, Timeout (30 * second),
        CorsHandler cors_policy, LimitByIP 100 (1 * minute),
        JWTAuth ''HS256'' secret, SetHeader ''Authorization'' ''Bearer'']"
    using route_table_stacks by blast
next
  fix r :: route assume "rt_stack r = [RequestID, RealIP, Logger, Recoverer, Timeout (30 * second),
        CorsHandler cors_policy, LimitByIP 100 (1 * minute)]"
  then show "serve impl handlers r =
          impl RequestID (impl RealIP (impl Logger (impl Recoverer (impl (Timeout (30 * second))
            (impl (CorsHandler cors_policy) (impl (LimitByIP 100 (1 * minute))
              (handlers (rt_handler r))))))))"
    by (rule serve_public)
next
  fix r :: route assume "rt_stack r = [RequestID, RealIP, Logger, Recoverer, Timeout (30 * second),
        CorsHandler cors_policy, LimitByIP 100 (1 * minute),
        JWTAuth ''HS256'' secret, SetHeader ''Authorization'' ''Bearer'']"
  then show "serve impl handlers r =
          impl RequestID (impl RealIP (impl Logger (impl Recoverer (impl (Timeout (30 * second))
            (impl (CorsHandler cors_policy) (impl (LimitByIP 100 (1 * minute))
              (impl (JWTAuth ''HS256'' secret) (impl (SetHeader ''Authorization'' ''Bearer'')
                (handlers (rt_handler r))))))))))"
    by (rule serve_protected)
next
  fix r :: route and pre m post handlers'
  assume "rt_stack r = pre @ m # post" "\<forall>next next'. impl m next = impl m next'"
  then show "serve impl handlers r = serve impl handlers' (r\<lparr>rt_stack := pre @ [m]\<rparr>)"
    by (intro serve_short_circuit) auto
next
  show "map (\<lambda>r. (rt_method r, rt_pattern r))
     (filter (\<lambda>r. \<forall>alg key. JWTAuth alg key \<notin> set (rt_stack r)) (route_table secret)) =
   [(''GET'', ''/health''), (''POST'', ''/api/v1/auth/register''),
    (''POST'', ''/api/v1/auth/login''), (''POST'', ''/api/v1/auth/refresh''),
    (''GET'', ''/api/v1/categories'')]"
    by (rule route_table_public)
qed

lemma profile_route:
  "route_table ''secret'' ! 5 =
     \<lparr> rt_method = ''GET'', rt_pattern = ''/api/v1/users/profile'',
       rt_stack = [RequestID, RealIP, Logger, Recoverer, Timeout (30 * second),
        CorsHandler cors_policy, LimitByIP 100 (1 * minute),
        JWTAuth ''HS256'' ''secret'', SetHeader ''Authorization'' ''Bearer''],
       rt_handler = ''userHandler.GetProfile'' \<rparr>"
  by (simp add: route_table_def main_router_def)

text \<open>
  The claim as stated makes JWT verification the last stage of a protected route.
  On \<^verbatim>\<open>GET /api/v1/users/profile\<close> the last stage is the header-setting one.
\<close>

theorem protected_route_ends_with_set_header:
  "route_table ''secret'' ! 5 =
     \<lparr> rt_method = ''GET'', rt_pattern = ''/api/v1/users/profile'',
       rt_stack = [RequestID, RealIP, Logger, Recoverer, Timeout (30 * second),
        CorsHandler cors_policy, LimitByIP 100 (1 * minute),
        JWTAuth ''HS256'' ''secret'', SetHeader ''Authorization'' ''Bearer''],
       rt_handler = ''userHandler.GetProfile'' \<rparr> \<and>
   last (rt_stack (route_table ''secret'' ! 5)) = SetHeader ''Authorization'' ''Bearer'' \<and>
   last (rt_stack (route_table ''secret'' ! 5)) \<noteq> JWTAuth ''HS256'' ''secret''"
  by (simp add: profile_route)


lemma health_route:
  "route_table secret ! 0 =
     \<lparr> rt_method = ''GET'', rt_pattern = ''/health'',
       rt_stack = [RequestID, RealIP, Logger, Recoverer, Timeout (30 * second),
        CorsHandler cors_policy, LimitByIP 100 (1 * minute)],
       rt_handler = ''health'' \<rparr>"
  by (simp add: route_table_def main_router_def)

lemma health_route_in_table: "route_table secret ! 0 \<in> set (route_table secret)"
  by (rule nth_mem) (simp add: length_route_table)

lemma profile_route_in_table: "route_table ''secret'' ! 5 \<in> set (route_table ''secret'')"
  by (rule nth_mem) (simp add: length_route_table)

lemma reject_all_tokens_ignores_next:
  "reject_all_tokens (JWTAuth alg key) next = reject_all_tokens (JWTAuth alg key) next'"
  by (simp add: reject_all_tokens_def)

text \<open>
  With a JWT stage that turns every request away, the profile route answers 401
  and leaves the world alone: the header stage and the handler are never entered. With stages that all pass
  the request on, the health route answers as its handler does.
\<close>

theorem middleware_stages_in_order_witness:
  "route_table ''secret'' ! 5 \<in> set (route_table ''secret'') \<and>
   rt_stack (route_table ''secret'' ! 5) =
     [RequestID, RealIP, Logger, Recoverer, Timeout (30 * second),
        CorsHandler cors_policy, LimitByIP 100 (1 * minute)] @
     JWTAuth ''HS256'' ''secret'' # [SetHeader ''Authorization'' ''Bearer''] \<and>
   serve reject_all_tokens example_handlers (route_table ''secret'' ! 5) =
     serve reject_all_tokens (\<lambda>name. health example_rfc3339)
       ((route_table ''secret'' ! 5)\<lparr>rt_stack :=
          [RequestID, RealIP, Logger, Recoverer, Timeout (30 * second),
        CorsHandler cors_policy, LimitByIP 100 (1 * minute)] @
          [JWTAuth ''HS256'' ''secret'']\<rparr>) \<and>
   serve reject_all_tokens example_handlers (route_table ''secret'' ! 5)
       anonymous_request example_world =
     (\<lparr> rs_status = 401, rs_header = [], rs_body = ''Unauthorized'' \<rparr>, example_world) \<and>
   route_table ''secret'' ! 0 \<in> set (route_table ''secret'') \<and>
   serve pass_all example_handlers (route_table ''secret'' ! 0) = health example_rfc3339"
proof -
  have hs: "rt_stack (route_table ''secret'' ! 0) = [RequestID, RealIP, Logger, Recoverer, Timeout (30 * second),
        CorsHandler cors_policy, LimitByIP 100 (1 * minute)]"
    by (simp add: health_route)
  note h = middleware_stages_in_order [of "''secret''" pass_all example_handlers,
      THEN conjunct1, rule_format, OF health_route_in_table,
      THEN conjunct2, THEN conjunct1, rule_format, OF hs]
  have hh: "serve pass_all example_handlers (route_table ''secret'' ! 0) = health example_rfc3339"
    unfolding h by (simp add: pass_all_def health_route example_handlers_def)
  let ?r = "route_table ''secret'' ! 5"
  let ?pre = "[RequestID, RealIP, Logger, Recoverer, Timeout (30 * second),
        CorsHandler cors_policy, LimitByIP 100 (1 * minute)]"
  have st: "rt_stack ?r = ?pre @ JWTAuth ''HS256'' ''secret'' # [SetHeader ''Authorization'' ''Bearer'']"
    by (simp add: profile_route)
  note t = middleware_stages_in_order [of "''secret''" reject_all_tokens example_handlers,
      THEN conjunct1, rule_format, OF profile_route_in_table,
      THEN conjunct2, THEN conjunct2, THEN conjunct2, rule_format,
      OF st reject_all_tokens_ignores_next, of "\<lambda>name. health example_rfc3339"]
  have e: "serve reject_all_tokens (\<lambda>name. health example_rfc3339)
       (?r\<lparr>rt_stack := ?pre @ [JWTAuth ''HS256'' ''secret'']\<rparr>) anonymous_request example_world =
     (\<lparr> rs_status = 401, rs_header = [], rs_body = ''Unauthorized'' \<rparr>, example_world)"
    by (simp add: serve_def reject_all_tokens_def)
  from t e have "serve reject_all_tokens example_handlers ?r anonymous_request example_world =
     (\<lparr> rs_status = 401, rs_header = [], rs_body = ''Unauthorized'' \<rparr>, example_world)"
    by simp
  with t st profile_route_in_table hh health_route_in_table show ?thesis by blast
qed

section \<open>Where the rate-limit counters are\<close>

lemma limit_by_ip_keeps_stores:
  "w_cache (verdict_state (limit_by_ip counter request_limit window_length rq w)) = w_cache w \<and>
   w_database (verdict_state (limit_by_ip counter request_limit window_length rq w)) =
     w_database w"
  by (simp add: limit_by_ip_def split: prod.splits)

lemma limit_by_ip_ignores_stores:
  "limit_by_ip counter request_limit window_length rq (w\<lparr> w_database := db, w_cache := cache \<rparr>) =
     (case limit_by_ip counter request_limit window_length rq w of
        Answer rs w' \<Rightarrow> Answer rs (w'\<lparr> w_database := db, w_cache := cache \<rparr>)
      | Pass rq' w' \<Rightarrow> Pass rq' (w'\<lparr> w_database := db, w_cache := cache \<rparr>))"
  by (simp add: limit_by_ip_def split: prod.splits)

lemma route_table_limited:
  "\<forall>r \<in> set (route_table secret). LimitByIP 100 (1 * minute) \<in> set (rt_stack r)"
  using route_table_stacks [of secret] by auto

text \<open>
  Claim C3, as the sources have it. Every route has the limiter
  \<^verbatim>\<open>httprate.LimitByIP(100, 1*time.Minute)\<close> in its stack, and of the constructor
  calls of \<^verbatim>\<open>main\<close> only the five services get the Redis client. The limiter's
  counters are its own: whatever its counting, it leaves the cache and the database
  as they are, and it decides the same, with the same counters afterwards, whatever
  they hold. The adapter's \<^verbatim>\<open>Increment\<close>, \<^verbatim>\<open>Decrement\<close> and
  \<^verbatim>\<open>SetExpiration\<close> are one \<^verbatim>\<open>INCR\<close>, \<^verbatim>\<open>DECR\<close> and \<^verbatim>\<open>EXPIRE\<close> each:
  no value is read and none is written back.
\<close>

theorem rate_limit_counters_in_process:
  "(\<forall>r \<in> set (route_table secret). LimitByIP 100 (1 * minute) \<in> set (rt_stack r)) \<and>
   map fst (filter (\<lambda>c. ''redisClient'' \<in> set (snd c)) main_calls) =
     [''services.NewUserService'', ''services.NewProductService'',
      ''services.NewOrderService'', ''services.NewSearchService'',
      ''services.NewNotificationService''] \<and>
   w_cache (verdict_state (limit_by_ip counter request_limit window_length rq w)) = w_cache w \<and>
   w_database (verdict_state (limit_by_ip counter request_limit window_length rq w)) =
     w_database w \<and>
   limit_by_ip counter request_limit window_length rq (w\<lparr> w_database := db, w_cache := cache \<rparr>) =
     (case limit_by_ip counter request_limit window_length rq w of
        Answer rs w' \<Rightarrow> Answer rs (w'\<lparr> w_database := db, w_cache := cache \<rparr>)
      | Pass rq' w' \<Rightarrow> Pass rq' (w'\<lparr> w_database := db, w_cache := cache \<rparr>)) \<and>
   RedisClient_Increment key = [INCR key] \<and>
   RedisClient_Decrement key = [DECR key] \<and>
   RedisClient_SetExpiration key expiration = [EXPIRE key expiration] \<and>
   (\<forall>c \<in> set (RedisClient_Increment key @ RedisClient_Decrement key @
               RedisClient_SetExpiration key expiration).
      \<not> reads_value c \<and> \<not> writes_value c)"
proof (intro conjI)
  show "\<forall>r \<in> set (route_table secret). LimitByIP 100 (1 * minute) \<in> set (rt_stack r)"
    by (rule route_table_limited)
  show "map fst (filter (\<lambda>c. ''redisClient'' \<in> set (snd c)) main_calls) =
     [''services.NewUserService'', ''services.NewProductService'',
      ''services.NewOrderService'', ''services.NewSearchService'',
      ''services.NewNotificationService'']"
    by (simp add: main_calls_def)
  show "w_cache (verdict_state (limit_by_ip counter request_limit window_length rq w)) = w_cache w"
    by (simp add: limit_by_ip_keeps_stores)
  show "w_database (verdict_state (limit_by_ip counter request_limit window_length rq w)) =
     w_database w"
    by (simp add: limit_by_ip_keeps_stores)
  show "limit_by_ip counter request_limit window_length rq
          (w\<lparr> w_database := db, w_cache := cache \<rparr>) =
     (case limit_by_ip counter request_limit window_length rq w of
        Answer rs w' \<Rightarrow> Answer rs (w'\<lparr> w_database := db, w_cache := cache \<rparr>)
      | Pass rq' w' \<Rightarrow> Pass rq' (w'\<lparr> w_database := db, w_cache := cache \<rparr>))"
    by (rule limit_by_ip_ignores_stores)
  show "RedisClient_Increment key = [INCR key]" by (simp add: RedisClient_Increment_def)
  show "RedisClient_Decrement key = [DECR key]" by (simp add: RedisClient_Decrement_def)
  show "RedisClient_SetExpiration key expiration = [EXPIRE key expiration]"
    by (simp add: RedisClient_SetExpiration_def)
  show "\<forall>c \<in> set (RedisClient_Increment key @ RedisClient_Decrement key @
               RedisClient_SetExpiration key expiration).
      \<not> reads_value c \<and> \<not> writes_value c"
    by (simp add: RedisClient_Increment_def RedisClient_Decrement_def
        RedisClient_SetExpiration_def)
qed

text \<open>
  The health route is rate-limited like every other, and the increment of a counter
  key is the one command \<^verbatim>\<open>INCR\<close>.
\<close>

theorem rate_limit_counters_in_process_witness:
  "route_table ''secret'' ! 0 \<in> set (route_table ''secret'') \<and>
   LimitByIP 100 (1 * minute) \<in> set (rt_stack (route_table ''secret'' ! 0)) \<and>
   INCR ''ratelimit:203.0.113.7'' \<in>
     set (RedisClient_Increment ''ratelimit:203.0.113.7'' @
          RedisClient_Decrement ''ratelimit:203.0.113.7'' @
          RedisClient_SetExpiration ''ratelimit:203.0.113.7'' minute) \<and>
   \<not> reads_value (INCR ''ratelimit:203.0.113.7'') \<and>
   \<not> writes_value (INCR ''ratelimit:203.0.113.7'')"
proof -
  note t = rate_limit_counters_in_process [where secret = "''secret''"
      and key = "''ratelimit:203.0.113.7''" and expiration = minute]
  note l = t [THEN conjunct1, rule_format, OF health_route_in_table]
  have i: "INCR ''ratelimit:203.0.113.7'' \<in>
     set (RedisClient_Increment ''ratelimit:203.0.113.7'' @
          RedisClient_Decrement ''ratelimit:203.0.113.7'' @
          RedisClient_SetExpiration ''ratelimit:203.0.113.7'' minute)"
    by (simp add: RedisClient_Increment_def)
  note n = t [THEN conjunct2, THEN conjunct2, THEN conjunct2, THEN conjunct2, THEN conjunct2,
      THEN conjunct2, THEN conjunct2, THEN conjunct2, rule_format, OF i]
  from health_route_in_table l i n show ?thesis by (intro conjI) simp_all
qed

text \<open>
  The claim as stated fails: the counters are not in the cache store. A first
  request is counted by the limiter while the cache, empty before, is empty after;
  and a client that has used up its quota is turned away although the cache holds
  no counter for it.
\<close>

theorem rate_limit_counter_not_in_cache:
  "limit_by_ip example_counter 100 (1 * minute) anonymous_request example_process =
     Pass anonymous_request
       (example_process\<lparr> w_limiter := (\<lambda>addr. 0)(''203.0.113.7:51234'' := 1) \<rparr>) \<and>
   w_cache example_process = (\<lambda>key. None) \<and>
   w_cache (example_process\<lparr> w_limiter := (\<lambda>addr. 0)(''203.0.113.7:51234'' := 1) \<rparr>) =
     (\<lambda>key. None) \<and>
   limit_by_ip example_counter 100 (1 * minute) anonymous_request busy_process =
     Answer \<lparr> rs_status = 429, rs_header = [], rs_body = ''Too Many Requests'' \<rparr> busy_process \<and>
   w_cache busy_process = (\<lambda>key. None)"
  by (simp add: limit_by_ip_def example_counter_def anonymous_request_def
      busy_process_def example_process_def)

section \<open>The health check\<close>

lemma health_routes:
  "filter (\<lambda>r. rt_pattern r = ''/health'') (route_table secret) =
     [\<lparr> rt_method = ''GET'', rt_pattern = ''/health'',
        rt_stack = [RequestID, RealIP, Logger, Recoverer, Timeout (30 * second),
                    CorsHandler cors_policy, LimitByIP 100 (1 * minute)],
        rt_handler = ''health'' \<rparr>]"
  by (simp add: route_table_def main_router_def)

lemma health_route_only:
  assumes "r \<in> set (route_table secret)" and "rt_pattern r = ''/health''"
  shows "r = \<lparr> rt_method = ''GET'', rt_pattern = ''/health'',
        rt_stack = [RequestID, RealIP, Logger, Recoverer, Timeout (30 * second),
                    CorsHandler cors_policy, LimitByIP 100 (1 * minute)],
        rt_handler = ''health'' \<rparr>"
proof -
  from assms have "r \<in> set (filter (\<lambda>r. rt_pattern r = ''/health'') (route_table secret))"
    by simp
  then show ?thesis unfolding health_routes by simp
qed

text \<open>
  Through stages that hand the response back with its status and body, the response
  is the one of the first stage that answers, or the handler's for the request and
  the state that reach it.
\<close>

lemma chain_stage_Cons:
  "chain (map (\<lambda>m. stage (before m) (after m)) (m # ms)) h rq w =
     (case before m rq w of
        Answer rs w' \<Rightarrow> (rs, w')
      | Pass rq' w' \<Rightarrow>
          (case chain (map (\<lambda>m. stage (before m) (after m)) ms) h rq' w' of
             (rs, w'') \<Rightarrow> after m rq' rs w''))"
  by (simp add: stage_def)

lemma chain_stages_pass:
  assumes kept: "\<And>m req res st. m \<in> set ms \<Longrightarrow>
                   rs_status (fst (after m req res st)) = rs_status res \<and>
                   rs_body (fst (after m req res st)) = rs_body res"
    and "descend before ms rq w = Pass rq' w'"
  shows "rs_status (fst (chain (map (\<lambda>m. stage (before m) (after m)) ms) h rq w)) =
           rs_status (fst (h rq' w')) \<and>
         rs_body (fst (chain (map (\<lambda>m. stage (before m) (after m)) ms) h rq w)) =
           rs_body (fst (h rq' w'))"
  using assms
proof (induction ms arbitrary: rq w)
  case Nil
  then show ?case by simp
next
  case (Cons m ms)
  from Cons.prems(2) obtain rq1 w1 where b: "before m rq w = Pass rq1 w1"
    and d: "descend before ms rq1 w1 = Pass rq' w'"
    by (auto split: verdict.splits)
  obtain rs w2 where n: "chain (map (\<lambda>m. stage (before m) (after m)) ms) h rq1 w1 = (rs, w2)"
    by (cases "chain (map (\<lambda>m. stage (before m) (after m)) ms) h rq1 w1")
  have "rs_status (fst (chain (map (\<lambda>m. stage (before m) (after m)) ms) h rq1 w1)) =
           rs_status (fst (h rq' w')) \<and>
        rs_body (fst (chain (map (\<lambda>m. stage (before m) (after m)) ms) h rq1 w1)) =
           rs_body (fst (h rq' w'))"
    by (rule Cons.IH [OF _ d]) (simp add: Cons.prems(1))
  with n have "rs_status rs = rs_status (fst (h rq' w'))"
    "rs_body rs = rs_body (fst (h rq' w'))" by simp_all
  with Cons.prems(1) [of m rq1 rs w2] show ?case
    unfolding chain_stage_Cons b verdict.case n prod.case by simp
qed

lemma chain_stages_answer:
  assumes kept: "\<And>m req res st. m \<in> set ms \<Longrightarrow>
                   rs_status (fst (after m req res st)) = rs_status res \<and>
                   rs_body (fst (after m req res st)) = rs_body res"
    and "descend before ms rq w = Answer rs w'"
  shows "rs_status (fst (chain (map (\<lambda>m. stage (before m) (after m)) ms) h rq w)) =
           rs_status rs \<and>
         rs_body (fst (chain (map (\<lambda>m. stage (before m) (after m)) ms) h rq w)) = rs_body rs"
  using assms
proof (induction ms arbitrary: rq w)
  case Nil
  then show ?case by simp
next
  case (Cons m ms)
  show ?case
  proof (cases "before m rq w")
    case (Answer rs1 w1)
    with Cons.prems(2) show ?thesis
      unfolding chain_stage_Cons by simp
  next
    case (Pass rq1 w1)
    with Cons.prems(2) have d: "descend before ms rq1 w1 = Answer rs w'" by simp
    obtain rs2 w2 where
      n: "chain (map (\<lambda>m. stage (before m) (after m)) ms) h rq1 w1 = (rs2, w2)"
      by (cases "chain (map (\<lambda>m. stage (before m) (after m)) ms) h rq1 w1")
    have "rs_status (fst (chain (map (\<lambda>m. stage (before m) (after m)) ms) h rq1 w1)) =
            rs_status rs \<and>
          rs_body (fst (chain (map (\<lambda>m. stage (before m) (after m)) ms) h rq1 w1)) =
            rs_body rs"
      by (rule Cons.IH [OF _ d]) (simp add: Cons.prems(1))
    with n have "rs_status rs2 = rs_status rs" "rs_body rs2 = rs_body rs"
      by simp_all
    with Cons.prems(1) [of m rq1 rs2 w2] show ?thesis
      unfolding chain_stage_Cons Pass verdict.case n prod.case by simp
  qed
qed

text \<open>
  Claim C9, as \<^verbatim>\<open>main\<close> has it. \<^verbatim>\<open>/health\<close> is registered once, for
  \<^verbatim>\<open>GET\<close>, with no JWT stage in its stack, and its handler answers 200 with the
  body built from the clock alone, for every request and every state of the database
  and the cache, leaving the state as it was. The seven stages of every route stand
  before it, the rate limiter among them. With stages that hand a response back with
  its status and body: when they all pass the request on, the client gets the
  handler's 200, whatever the stages have made of the request and the state on the
  way; when one of them answers, the rate limiter with its 429 for one, the client
  gets that answer.
\<close>

theorem health_needs_no_store_and_no_token:
  \<open>(\<forall>r \<in> set (route_table secret). rt_pattern r = ''/health'' \<longrightarrow>
      rt_method r = ''GET'' \<and> rt_handler r = ''health'' \<and>
      (\<forall>alg key. JWTAuth alg key \<notin> set (rt_stack r)) \<and>
      (handlers ''health'' = health fmt \<longrightarrow>
       (\<forall>m \<in> set (rt_stack r). \<forall>req res st.
          rs_status (fst (after m req res st)) = rs_status res \<and>
          rs_body (fst (after m req res st)) = rs_body res) \<longrightarrow>
         (\<forall>rq' w'. descend (stages_before counter library) (rt_stack r) rq w = Pass rq' w' \<longrightarrow>
            rs_status (fst (serve (\<lambda>m. stage (stages_before counter library m) (after m))
                              handlers r rq w)) = 200 \<and>
            rs_body (fst (serve (\<lambda>m. stage (stages_before counter library m) (after m))
                            handlers r rq w)) =
              ''{"status": "healthy", "timestamp": "'' @ fmt (w_clock w') @ ''"}'') \<and>
         (\<forall>rs w'. descend (stages_before counter library) (rt_stack r) rq w = Answer rs w' \<longrightarrow>
            rs_status (fst (serve (\<lambda>m. stage (stages_before counter library m) (after m))
                              handlers r rq w)) = rs_status rs \<and>
            rs_body (fst (serve (\<lambda>m. stage (stages_before counter library m) (after m))
                            handlers r rq w)) = rs_body rs))) \<and>
   (\<exists>r \<in> set (route_table secret). rt_pattern r = ''/health'') \<and>
   health fmt rq w =
     (\<lparr> rs_status = 200,
        rs_header = [(''Content-Type'', ''application/json'')],
        rs_body = ''{"status": "healthy", "timestamp": "'' @ fmt (w_clock w) @ ''"}'' \<rparr>,
      w) \<and>
   fst (health fmt other_rq (w\<lparr> w_database := db, w_cache := cache \<rparr>)) =
     fst (health fmt rq w)\<close>
proof (intro conjI ballI impI allI)
  fix r assume r: "r \<in> set (route_table secret)" "rt_pattern r = ''/health''"
  note e = health_route_only [OF r]
  show "rt_method r = ''GET''" "rt_handler r = ''health''"
    by (simp_all add: e)
  show "JWTAuth alg key \<notin> set (rt_stack r)" for alg key
    by (simp add: e)
  assume h: "handlers ''health'' = health fmt"
    and kept: "\<forall>m \<in> set (rt_stack r). \<forall>req res st.
          rs_status (fst (after m req res st)) = rs_status res \<and>
          rs_body (fst (after m req res st)) = rs_body res"
  have hh: "handlers (rt_handler r) = health fmt" using h by (simp add: e)
  {
    fix rq' w'
    assume d: "descend (stages_before counter library) (rt_stack r) rq w = Pass rq' w'"
    note p = chain_stages_pass [where after = after and before = "stages_before counter library"
        and ms = "rt_stack r" and h = "handlers (rt_handler r)", OF kept [rule_format] d]
    from p show "rs_status (fst (serve (\<lambda>m. stage (stages_before counter library m) (after m))
                              handlers r rq w)) = 200"
      by (simp add: serve_def hh health_def)
    from p show \<open>rs_body (fst (serve (\<lambda>m. stage (stages_before counter library m) (after m))
                            handlers r rq w)) =
              ''{"status": "healthy", "timestamp": "'' @ fmt (w_clock w') @ ''"}''\<close>
      by (simp add: serve_def hh health_def)
  }
  {
    fix rs w'
    assume d: "descend (stages_before counter library) (rt_stack r) rq w = Answer rs w'"
    note p = chain_stages_answer [where after = after and before = "stages_before counter library"
        and ms = "rt_stack r" and h = "handlers (rt_handler r)", OF kept [rule_format] d]
    from p show "rs_status (fst (serve (\<lambda>m. stage (stages_before counter library m) (after m))
                              handlers r rq w)) = rs_status rs"
      by (simp add: serve_def)
    from p show "rs_body (fst (serve (\<lambda>m. stage (stages_before counter library m) (after m))
                            handlers r rq w)) = rs_body rs"
      by (simp add: serve_def)
  }
next
  have "route_table secret ! 0 \<in> set (route_table secret)" by (rule health_route_in_table)
  then show "\<exists>r \<in> set (route_table secret). rt_pattern r = ''/health''"
    by (rule bexI [rotated]) (simp add: health_route)
next
  show \<open>health fmt rq w =
     (\<lparr> rs_status = 200,
        rs_header = [(''Content-Type'', ''application/json'')],
        rs_body = ''{"status": "healthy", "timestamp": "'' @ fmt (w_clock w) @ ''"}'' \<rparr>,
      w)\<close>
    by (simp add: health_def)
next
  show "fst (health fmt other_rq (w\<lparr> w_database := db, w_cache := cache \<rparr>)) =
     fst (health fmt rq w)"
    by (simp add: health_def)
qed

lemma example_descend:
  "descend (stages_before example_counter passing) (rt_stack (route_table ''secret'' ! 0))
     anonymous_request example_process =
   Pass anonymous_request
     (example_process\<lparr> w_limiter := (\<lambda>addr. 0)(''203.0.113.7:51234'' := 1) \<rparr>)"
  by (simp add: health_route stages_before_def passing_def limit_by_ip_def example_counter_def
      anonymous_request_def example_process_def)

text \<open>
  An anonymous request from a client that has made none before: the limiter counts
  it and passes it on, and the answer is the handler's 200.
\<close>

theorem health_needs_no_store_and_no_token_witness:
  \<open>route_table ''secret'' ! 0 \<in> set (route_table ''secret'') \<and>
   rt_pattern (route_table ''secret'' ! 0) = ''/health'' \<and>
   map_of (rq_header anonymous_request) ''Authorization'' = None \<and>
   descend (stages_before example_counter passing) (rt_stack (route_table ''secret'' ! 0))
     anonymous_request example_process =
   Pass anonymous_request
     (example_process\<lparr> w_limiter := (\<lambda>addr. 0)(''203.0.113.7:51234'' := 1) \<rparr>) \<and>
   rs_status (fst (serve (\<lambda>m. stage (stages_before example_counter passing m) (returning m))
                     (\<lambda>name. health example_rfc3339) (route_table ''secret'' ! 0)
                     anonymous_request example_process)) = 200 \<and>
   rs_body (fst (serve (\<lambda>m. stage (stages_before example_counter passing m) (returning m))
                   (\<lambda>name. health example_rfc3339) (route_table ''secret'' ! 0)
                   anonymous_request example_process)) =
     ''{"status": "healthy", "timestamp": "2026-01-01T00:00:00Z"}''\<close>
proof -
  have p: "rt_pattern (route_table ''secret'' ! 0) = ''/health''"
    by (simp add: health_route)
  have a: "map_of (rq_header anonymous_request) ''Authorization'' = None"
    by (simp add: anonymous_request_def)
  have kept: "\<forall>m \<in> set (rt_stack (route_table ''secret'' ! 0)). \<forall>req res st.
      rs_status (fst (returning m req res (st :: (int, string \<Rightarrow> nat) process))) =
        rs_status res \<and>
      rs_body (fst (returning m req res st)) = rs_body res"
    by (simp add: returning_def)
  have c: "example_rfc3339 t = ''2026-01-01T00:00:00Z''" for t
    by (simp add: example_rfc3339_def)
  note t = health_needs_no_store_and_no_token [where secret = "''secret''"
      and handlers = "\<lambda>name. health example_rfc3339" and fmt = example_rfc3339
      and after = returning and counter = example_counter and library = passing
      and rq = anonymous_request and w = example_process,
      THEN conjunct1, THEN bspec, OF health_route_in_table, THEN mp, OF p,
      THEN conjunct2, THEN conjunct2, THEN conjunct2, THEN mp, OF refl, THEN mp, OF kept,
      THEN conjunct1, THEN spec, THEN spec, THEN mp, OF example_descend]
  from t have 1: "rs_status (fst (serve (\<lambda>m. stage (stages_before example_counter passing m) (returning m))
                     (\<lambda>name. health example_rfc3339) (route_table ''secret'' ! 0)
                     anonymous_request example_process)) = 200"
    by (rule conjunct1)
  from t have 2: \<open>rs_body (fst (serve (\<lambda>m. stage (stages_before example_counter passing m) (returning m))
                   (\<lambda>name. health example_rfc3339) (route_table ''secret'' ! 0)
                   anonymous_request example_process)) =
     ''{"status": "healthy", "timestamp": "2026-01-01T00:00:00Z"}''\<close>
    by (simp add: c)
  show ?thesis
    by (intro conjI health_route_in_table p a example_descend 1 2)
qed

text \<open>
  The claim as stated fails: not every request to \<^verbatim>\<open>/health\<close> gets a success
  response. The same request from a client that has used up its quota is answered by
  the rate limiter, and the handler is not reached.
\<close>

theorem health_rate_limited:
  "rt_pattern (route_table ''secret'' ! 0) = ''/health'' \<and>
   serve (\<lambda>m. stage (stages_before example_counter passing m) (returning m))
     (\<lambda>name. health example_rfc3339) (route_table ''secret'' ! 0)
     anonymous_request busy_process =
   (\<lparr> rs_status = 429, rs_header = [], rs_body = ''Too Many Requests'' \<rparr>, busy_process)"
  by (simp add: health_route serve_def stage_def stages_before_def passing_def returning_def
      limit_by_ip_def example_counter_def busy_process_def example_process_def)

end
